theory Spec2Isabelle
  imports Complex_Main
begin

section \<open>Numbers\<close>

text \<open>
  The source computes on IEEE doubles. The embedding uses \<^typ>\<open>real\<close> for every
  measured quantity (potential, current, time, coefficients, areas) and \<^typ>\<open>nat\<close> or
  \<^typ>\<open>int\<close> for array indices and counts, so every statement below is one of exact
  arithmetic. The \<open>isFinite\<close> tests of the source are always true on reals and are
  written as such where they occur.
\<close>

section \<open>Integration engine (integration.ts)\<close>

record IntegrationResult =
  area :: real
  error :: "real option"

record DataPoint2D =
  x :: real
  y :: real

text \<open>The summation loop of \<open>trapz\<close>: \<open>for (i = 1; i < points.length; i++)\<close>.\<close>

definition trapzStep :: "DataPoint2D list \<Rightarrow> nat \<Rightarrow> real \<Rightarrow> real" where
  "trapzStep points i acc =
     (let dx = x (points ! i) - x (points ! (i - 1))
      in acc + dx * (y (points ! (i - 1)) + y (points ! i)) / 2)"

definition trapzSum :: "DataPoint2D list \<Rightarrow> real" where
  "trapzSum points = fold (trapzStep points) [1..<length points] 0"

text \<open>The loop \<open>for (i = 0; i < points.length; i += 2) coarsePoints.push(points[i])\<close>.\<close>

definition coarsePoints :: "DataPoint2D list \<Rightarrow> DataPoint2D list" where
  "coarsePoints points = map (\<lambda>i. points ! i) (filter even [0..<length points])"

lemma length_filter_even_upt: "length (filter even [0..<n]) = (n + 1) div 2"
  by (induction n) auto

lemma length_coarsePoints: "length (coarsePoints points) = (length points + 1) div 2"
  by (simp add: coarsePoints_def length_filter_even_upt)

function trapz :: "DataPoint2D list \<Rightarrow> IntegrationResult"
  and estimateIntegrationError :: "DataPoint2D list \<Rightarrow> real \<Rightarrow> real" where
  "trapz points =
     (if length points < 2 then \<lparr>area = 0, error = None\<rparr>
      else
        let a = trapzSum points;
            e = (if length points \<ge> 4 then Some (estimateIntegrationError points a) else None)
        in \<lparr>area = a, error = e\<rparr>)"
| "estimateIntegrationError points fullArea =
     (if length points < 4 then 0
      else
        let coarseArea = area (trapz (coarsePoints points))
        in \<bar>coarseArea - fullArea\<bar> / 3)"
  by pat_completeness auto
termination
  by (relation "measure (\<lambda>v. case v of Inl ps \<Rightarrow> 2 * length ps + 1
                                      | Inr (ps, _) \<Rightarrow> 2 * length ps)")
     (auto simp: length_coarsePoints)

declare trapz.simps [simp del] estimateIntegrationError.simps [simp del]

text \<open>The loop of \<open>simpsons\<close>: \<open>for (i = 0; i < n - 2; i += 2)\<close>.\<close>

definition simpsonStep :: "DataPoint2D list \<Rightarrow> nat \<Rightarrow> real \<Rightarrow> real" where
  "simpsonStep points i acc =
     (let h = x (points ! (i + 1)) - x (points ! i)
      in acc + (h / 3) * (y (points ! i) + 4 * y (points ! (i + 1)) + y (points ! (i + 2))))"

definition simpsons :: "DataPoint2D list \<Rightarrow> IntegrationResult" where
  "simpsons points =
     (let n = length points
      in if n < 3 \<or> even n then trapz points
         else \<lparr>area = fold (simpsonStep points) (filter even [0..<n - 2]) 0, error = None\<rparr>)"


section \<open>Failures and warnings\<close>

text \<open>
  Every \<open>throw\<close> of the source is a value of \<open>failure\<close>; a function that can throw
  returns \<open>failure + 'a\<close>. Reading a field of \<open>undefined\<close> (an array read past the end
  followed by a property access) raises a \<open>TypeError\<close> in the source.
  The warning strings of the source are the constructors of \<open>warning\<close>; a number or a
  message interpolated into the string is the constructor's argument. \<open>KernelNotFinite\<close>,
  \<open>DataNotFinite\<close> and the two \<open>InvalidCurrents\<close> warnings belong to tests for
  non-finite numbers; they are listed for completeness and never arise over the reals.
\<close>

datatype failure =
    DataEmpty
  | KernelEmpty
  | KernelNotFinite
  | NoSmoothingKernel int
  | NoDerivativeKernel int
  | TypeError

datatype warning =
    KernelLargerThanData
  | DataNotFinite
  | DataShorterThanSmoothingWindow nat int
  | InvalidCurrentsSmoothing nat
  | SmoothingFailedWith failure
  | LengthMismatch
  | HeavySmoothing
  | MinimalSmoothing
  | SmoothingArtifacts nat
  | AmplitudeDistorted
  | DataShorterThanDerivativeWindow nat int
  | InvalidCurrentsDerivative nat
  | DerivativeFailedWith failure
  | DerivativeEmpty
  | ExtremeDerivative
  | DerivativeNearlyConstant
  | SmallPotentialSpacing
  | HighDerivativeNoise
  | SmoothingFailedRawData
  | DerivativeFailed
  | BaselineFailedEndpoint

section \<open>Convolution engine (convolution.ts)\<close>

datatype edgeHandling = Mirror | Constant | Extend

record ConvolutionResult =
  result :: "real list"
  conv_edgeHandling :: edgeHandling
  conv_warnings :: "warning list"

text \<open>
  \<open>getDataValue\<close> is only called by \<open>convolve\<close>, after the empty array has been
  refused, so every read below is in range.
\<close>

definition getDataValue :: "real list \<Rightarrow> int \<Rightarrow> edgeHandling \<Rightarrow> real" where
  "getDataValue data idx edge =
     (if 0 \<le> idx \<and> idx < int (length data) then data ! nat idx
      else case edge of
        Mirror \<Rightarrow>
          (let mirroredIndex =
                 (if idx < 0 then min \<bar>idx\<bar> (int (length data) - 1)
                  else max 0 (2 * int (length data) - idx - 2))
           in data ! nat mirroredIndex)
      | Constant \<Rightarrow> (if idx < 0 then data ! 0 else data ! (length data - 1))
      | Extend \<Rightarrow> (if idx < 0 then data ! 0 else data ! (length data - 1)))"

text \<open>The inner loop over the kernel positions \<open>j\<close> at output position \<open>i\<close>.\<close>

definition convolveStep ::
  "real list \<Rightarrow> real list \<Rightarrow> edgeHandling \<Rightarrow> nat \<Rightarrow> nat \<Rightarrow> real \<Rightarrow> real" where
  "convolveStep data kern edge i j acc =
     (let halfKernel = length kern div 2;
          dataIndex = int i - int halfKernel + int j;
          dataValue = getDataValue data dataIndex edge;
          kernelValue = kern ! j
      in acc + dataValue * kernelValue)"

definition convolveAt :: "real list \<Rightarrow> real list \<Rightarrow> edgeHandling \<Rightarrow> nat \<Rightarrow> real" where
  "convolveAt data kern edge i = fold (convolveStep data kern edge i) [0..<length kern] 0"

definition convolve :: "real list \<Rightarrow> real list \<Rightarrow> edgeHandling \<Rightarrow> failure + ConvolutionResult" where
  "convolve data kern edge =
     (if data = [] then Inl DataEmpty
      else if kern = [] then Inl KernelEmpty
      else
        let ws = (if length kern > length data then [KernelLargerThanData] else [])
        in Inr \<lparr>result = map (convolveAt data kern edge) [0..<length data],
                conv_edgeHandling = edge,
                conv_warnings = ws\<rparr>)"

section \<open>Savitzky-Golay kernel table (savitzky-golay-kernels.ts)\<close>

datatype kernelType = Smoothing | Derivative

record SGKernel =
  coefficients :: "real list"
  windowSize :: int
  polynomialOrder :: int
  kernelType :: kernelType

record SGKernelSet =
  smoothingKernel :: SGKernel
  derivativeKernel :: SGKernel

definition SG_KERNELS_5 :: SGKernelSet where
  "SG_KERNELS_5 =
     \<lparr>smoothingKernel = \<lparr>coefficients = [-3, 12, 17, 12, -3],
                          windowSize = 5, polynomialOrder = 2, kernelType = Smoothing\<rparr>,
      derivativeKernel = \<lparr>coefficients = [-2, -1, 0, 1, 2],
                           windowSize = 5, polynomialOrder = 2, kernelType = Derivative\<rparr>\<rparr>"

definition SG_KERNELS_9 :: SGKernelSet where
  "SG_KERNELS_9 =
     \<lparr>smoothingKernel = \<lparr>coefficients = [-21, 14, 39, 54, 59, 54, 39, 14, -21],
                          windowSize = 9, polynomialOrder = 2, kernelType = Smoothing\<rparr>,
      derivativeKernel = \<lparr>coefficients = [-4, -3, -2, -1, 0, 1, 2, 3, 4],
                           windowSize = 9, polynomialOrder = 2, kernelType = Derivative\<rparr>\<rparr>"

definition SG_KERNELS_11 :: SGKernelSet where
  "SG_KERNELS_11 =
     \<lparr>smoothingKernel = \<lparr>coefficients = [-36, 9, 44, 69, 84, 89, 84, 69, 44, 9, -36],
                          windowSize = 11, polynomialOrder = 2, kernelType = Smoothing\<rparr>,
      derivativeKernel = \<lparr>coefficients = [-5, -4, -3, -2, -1, 0, 1, 2, 3, 4, 5],
                           windowSize = 11, polynomialOrder = 2, kernelType = Derivative\<rparr>\<rparr>"

definition SG_KERNELS_15 :: SGKernelSet where
  "SG_KERNELS_15 =
     \<lparr>smoothingKernel =
        \<lparr>coefficients = [-78, -13, 42, 87, 122, 147, 162, 167, 162, 147, 122, 87, 42, -13, -78],
         windowSize = 15, polynomialOrder = 2, kernelType = Smoothing\<rparr>,
      derivativeKernel =
        \<lparr>coefficients = [-7, -6, -5, -4, -3, -2, -1, 0, 1, 2, 3, 4, 5, 6, 7],
         windowSize = 15, polynomialOrder = 2, kernelType = Derivative\<rparr>\<rparr>"

definition SG_KERNELS_21 :: SGKernelSet where
  "SG_KERNELS_21 =
     \<lparr>smoothingKernel =
        \<lparr>coefficients = [-171, -76, 9, 84, 149, 204, 249, 284, 309, 324, 329, 324, 309, 284,
                          249, 204, 149, 84, 9, -76, -171],
         windowSize = 21, polynomialOrder = 2, kernelType = Smoothing\<rparr>,
      derivativeKernel =
        \<lparr>coefficients = [-10, -9, -8, -7, -6, -5, -4, -3, -2, -1, 0, 1, 2, 3, 4, 5, 6, 7, 8,
                          9, 10],
         windowSize = 21, polynomialOrder = 2, kernelType = Derivative\<rparr>\<rparr>"

definition SG_KERNEL_REGISTRY :: "int \<Rightarrow> SGKernelSet option" where
  "SG_KERNEL_REGISTRY ws =
     (if ws = 5 then Some SG_KERNELS_5
      else if ws = 9 then Some SG_KERNELS_9
      else if ws = 11 then Some SG_KERNELS_11
      else if ws = 15 then Some SG_KERNELS_15
      else if ws = 21 then Some SG_KERNELS_21
      else None)"

definition getNormalizedSmoothingKernel :: "int \<Rightarrow> failure + real list" where
  "getNormalizedSmoothingKernel ws =
     (case SG_KERNEL_REGISTRY ws of
        None \<Rightarrow> Inl (NoSmoothingKernel ws)
      | Some ks \<Rightarrow>
          let cs = coefficients (smoothingKernel ks);
              total = fold (\<lambda>val acc. acc + val) cs 0
          in Inr (map (\<lambda>val. val / total) cs))"

definition getDerivativeKernel :: "int \<Rightarrow> failure + real list" where
  "getDerivativeKernel ws =
     (case SG_KERNEL_REGISTRY ws of
        None \<Rightarrow> Inl (NoDerivativeKernel ws)
      | Some ks \<Rightarrow> Inr (coefficients (derivativeKernel ks)))"


section \<open>Samples and configuration (types.ts)\<close>

text \<open>An optional field of the source (\<open>time?: number\<close>) is an \<open>option\<close>: \<open>None\<close> is \<open>undefined\<close>.\<close>

record DataPoint =
  potential :: real
  current :: real
  time :: "real option"
  appliedPotential :: "real option"
  scan :: "real option"
  pointIndex :: "real option"
  qPlus :: "real option"
  qMinus :: "real option"

text \<open>The object literal \<open>{ potential: e, current: c }\<close>: every optional field is absent.\<close>

definition plainPoint :: "real \<Rightarrow> real \<Rightarrow> DataPoint" where
  "plainPoint e c =
     \<lparr>potential = e, current = c, time = None, appliedPotential = None, scan = None,
      pointIndex = None, qPlus = None, qMinus = None\<rparr>"

datatype direction = Forward | Reverse

datatype baselineMethod = Rubberband | Linear | Asls

record AnalysisConfig =
  smoothingEnabled :: bool
  smoothingWindow :: int
  baselineMethod :: baselineMethod
  scanRate :: "real option"
  aslsLambda :: real
  aslsP :: real
  rubberbandIterations :: real
  rubberbandWindowSize :: real
  linearAnchorFraction :: real
  peakProminenceThreshold :: real

section \<open>Baseline estimators (baseline-fitting.ts)\<close>

subsection \<open>Rubberband\<close>

text \<open>
  The fields \<open>iterations\<close> and \<open>windowSize\<close> of \<open>RubberbandConfig\<close>. A loop
  \<open>for (iter = 0; iter < iterations; iter++)\<close> over a number runs
  \<open>nat \<lceil>iterations\<rceil>\<close> times.
\<close>

record RubberbandConfig =
  iterations :: real
  rbWindowSize :: real

definition createDefaultRubberbandConfig :: RubberbandConfig where
  "createDefaultRubberbandConfig = \<lparr>iterations = 40, rbWindowSize = 80\<rparr>"

text \<open>The window bounds \<open>lo = Math.max(0, i - halfWin)\<close> and \<open>hi = Math.min(n - 1, i + halfWin)\<close>.\<close>

definition winLo :: "nat \<Rightarrow> nat \<Rightarrow> nat" where
  "winLo i halfWin = nat (max 0 (int i - int halfWin))"

definition winHi :: "nat \<Rightarrow> nat \<Rightarrow> nat \<Rightarrow> nat" where
  "winHi n i halfWin = nat (min (int n - 1) (int i + int halfWin))"

text \<open>
  The inner loop of erosion and dilation: \<open>extremum = arr[lo]\<close>, then for \<open>j\<close> from
  \<open>lo + 1\<close> to \<open>hi\<close> the extremum is replaced by \<open>arr[j]\<close> when \<open>arr[j]\<close> is smaller
  (\<open>takeSmaller\<close>) or larger.
\<close>

definition windowExtremum :: "bool \<Rightarrow> real list \<Rightarrow> nat \<Rightarrow> nat \<Rightarrow> real" where
  "windowExtremum takeSmaller arr lo hi =
     fold (\<lambda>j extremum.
             if takeSmaller then (if arr ! j < extremum then arr ! j else extremum)
             else (if arr ! j > extremum then arr ! j else extremum))
          [lo + 1..<hi + 1] (arr ! lo)"

definition erode :: "direction \<Rightarrow> nat \<Rightarrow> real list \<Rightarrow> real list" where
  "erode dir halfWin envelope =
     (let n = length envelope
      in map (\<lambda>i. windowExtremum (dir = Forward) envelope (winLo i halfWin) (winHi n i halfWin))
           [0..<n])"

definition dilate :: "direction \<Rightarrow> nat \<Rightarrow> real list \<Rightarrow> real list" where
  "dilate dir halfWin eroded =
     (let n = length eroded
      in map (\<lambda>i. windowExtremum (dir \<noteq> Forward) eroded (winLo i halfWin) (winHi n i halfWin))
           [0..<n])"

definition smoothArray :: "real list \<Rightarrow> nat \<Rightarrow> real list" where
  "smoothArray arr halfWin =
     (let n = length arr
      in map (\<lambda>i. let lo = winLo i halfWin;
                      hi = winHi n i halfWin;
                      total = fold (\<lambda>j acc. acc + arr ! j) [lo..<hi + 1] 0
                  in total / real (hi - lo + 1))
           [0..<n])"

fun rubberbandLoop :: "nat \<Rightarrow> direction \<Rightarrow> nat \<Rightarrow> real list \<Rightarrow> real list" where
  "rubberbandLoop 0 dir halfWin envelope = envelope"
| "rubberbandLoop (Suc k) dir halfWin envelope =
     rubberbandLoop k dir halfWin (smoothArray (dilate dir halfWin (erode dir halfWin envelope)) halfWin)"

definition rubberbandBaseline :: "DataPoint list \<Rightarrow> direction \<Rightarrow> RubberbandConfig \<Rightarrow> DataPoint list" where
  "rubberbandBaseline data dir config =
     (if length data < 3 then map (\<lambda>p. plainPoint (potential p) (current p)) data
      else
        let n = length data;
            halfWin = nat (max 2 (min \<lfloor>real n * 0.05\<rfloor> \<lfloor>rbWindowSize config / 2\<rfloor>));
            envelope = rubberbandLoop (nat \<lceil>iterations config\<rceil>) dir halfWin (map current data);
            clamped = map (\<lambda>i. if dir = Forward then min (envelope ! i) (current (data ! i))
                                else max (envelope ! i) (current (data ! i)))
                          [0..<n]
        in map (\<lambda>i. plainPoint (potential (data ! i)) (clamped ! i)) [0..<n])"

subsection \<open>Linear\<close>

text \<open>The \<open>{x, y}\<close> anchors of \<open>leastSquares\<close> are pairs (potential, current).\<close>

definition leastSquares :: "(real \<times> real) list \<Rightarrow> real \<times> real" where
  "leastSquares points =
     (let n = real (length points);
          sumX = fold (\<lambda>(px, py) acc. acc + px) points 0;
          sumY = fold (\<lambda>(px, py) acc. acc + py) points 0;
          sumXY = fold (\<lambda>(px, py) acc. acc + px * py) points 0;
          sumX2 = fold (\<lambda>(px, py) acc. acc + px * px) points 0;
          denom = n * sumX2 - sumX * sumX
      in if \<bar>denom\<bar> < 1 / 10 ^ 15 then (0, sumY / n)
         else
           let slope = (n * sumXY - sumX * sumY) / denom;
               intercept = (sumY - slope * sumX) / n
           in (slope, intercept))"

text \<open>
  With \<open>anchorCount > n\<close> the first anchor loop reads \<open>data[n]\<close>, which is
  \<open>undefined\<close>, and its \<open>.potential\<close> raises.
\<close>

definition linearBaseline :: "DataPoint list \<Rightarrow> real \<Rightarrow> failure + DataPoint list" where
  "linearBaseline data anchorFraction =
     (if length data < 3 then Inr (map (\<lambda>p. plainPoint (potential p) (current p)) data)
      else
        let n = length data;
            anchorCount = nat (max 2 \<lfloor>real n * anchorFraction\<rfloor>)
        in if anchorCount > n then Inl TypeError
           else
             let anchors = map (\<lambda>i. (potential (data ! i), current (data ! i))) [0..<anchorCount]
                           @ map (\<lambda>i. (potential (data ! i), current (data ! i))) [n - anchorCount..<n];
                 (slope, intercept) = leastSquares anchors
             in Inr (map (\<lambda>p. plainPoint (potential p) (slope * potential p + intercept)) data))"


subsection \<open>Asymmetric least squares\<close>

text \<open>The fields \<open>lambda\<close>, \<open>p\<close>, \<open>maxIterations\<close> and \<open>tolerance\<close> of \<open>AslsConfig\<close>.\<close>

record AslsConfig =
  lambda :: real
  asymP :: real
  maxIterations :: real
  tolerance :: real

definition createDefaultAslsConfig :: AslsConfig where
  "createDefaultAslsConfig = \<lparr>lambda = 10 ^ 6, asymP = 1 / 100, maxIterations = 20, tolerance = 1 / 10 ^ 6\<rparr>"

text \<open>
  The first phase of \<open>solvePentadiagonal\<close>: the three bands of the symmetric matrix, the
  main diagonal \<open>a[0..n-1]\<close>, the first sub-diagonal \<open>e[0..n-2]\<close> and the second
  sub-diagonal \<open>f[0..n-3]\<close>. The source allocates \<open>e\<close> and \<open>f\<close> with \<open>n\<close> slots and
  never writes or reads the last one (two) of them; the lists here hold the written slots.
\<close>

definition assembleBands :: "real list \<Rightarrow> real \<Rightarrow> nat \<Rightarrow> real list \<times> real list \<times> real list" where
  "assembleBands w lam n =
     (let a = map (\<lambda>i. let dtd = (if i = 0 \<or> i = n - 1 then 1
                                   else if i = 1 \<or> i = n - 2 then 5
                                   else 6)
                        in w ! i + lam * dtd) [0..<n];
          e = map (\<lambda>i. if i = 0 \<or> i = n - 2 then lam * (-2) else lam * (-4)) [0..<n - 1];
          f = map (\<lambda>i. lam) [0..<n - 2]
      in (a, e, f))"

text \<open>The banded Cholesky factorisation, column \<open>j\<close>, in place on the three bands.\<close>

definition choleskyColumn ::
  "nat \<Rightarrow> nat \<Rightarrow> real list \<times> real list \<times> real list \<Rightarrow> real list \<times> real list \<times> real list" where
  "choleskyColumn n j bands =
     (case bands of (a, e, f) \<Rightarrow>
        let a1 = (if j \<ge> 1 then a[j := a ! j - e ! (j - 1) * e ! (j - 1)] else a);
            a2 = (if j \<ge> 2 then a1[j := a1 ! j - f ! (j - 2) * f ! (j - 2)] else a1);
            a3 = a2[j := sqrt (max (a2 ! j) (1 / 10 ^ 30))];
            e2 = (if j < n - 1
                  then let e1 = (if j \<ge> 1 then e[j := e ! j - e ! (j - 1) * f ! (j - 1)] else e)
                       in e1[j := e1 ! j / a3 ! j]
                  else e);
            f1 = (if j < n - 2 then f[j := f ! j / a3 ! j] else f)
        in (a3, e2, f1))"

text \<open>Forward substitution \<open>L g = W y\<close> and back substitution \<open>L\<^sup>T z = g\<close>.\<close>

definition forwardStep ::
  "real list \<Rightarrow> real list \<Rightarrow> real list \<Rightarrow> real list \<Rightarrow> real list \<Rightarrow> nat \<Rightarrow> real list \<Rightarrow> real list" where
  "forwardStep ys w a e f i g =
     (let v0 = w ! i * ys ! i;
          v1 = (if i \<ge> 1 then v0 - e ! (i - 1) * g ! (i - 1) else v0);
          v2 = (if i \<ge> 2 then v1 - f ! (i - 2) * g ! (i - 2) else v1)
      in g[i := v2 / a ! i])"

definition backStep ::
  "nat \<Rightarrow> real list \<Rightarrow> real list \<Rightarrow> real list \<Rightarrow> real list \<Rightarrow> nat \<Rightarrow> real list \<Rightarrow> real list" where
  "backStep n g a e f i z =
     (let v0 = g ! i;
          v1 = (if i + 1 < n then v0 - e ! i * z ! (i + 1) else v0);
          v2 = (if i + 2 < n then v1 - f ! i * z ! (i + 2) else v1)
      in z[i := v2 / a ! i])"

text \<open>
  \<open>g\<close> and \<open>z\<close> are allocated with \<open>n\<close> unset slots; each slot is written before it is
  read, so the initial content (here 0) is never observed.
\<close>

definition solvePentadiagonal :: "real list \<Rightarrow> real list \<Rightarrow> real \<Rightarrow> nat \<Rightarrow> real list" where
  "solvePentadiagonal ys w lam n =
     (case fold (choleskyColumn n) [0..<n] (assembleBands w lam n) of (a, e, f) \<Rightarrow>
        let g = fold (forwardStep ys w a e f) [0..<n] (replicate n 0);
            z = fold (backStep n g a e f) (rev [0..<n]) (replicate n 0)
        in z)"

text \<open>
  The reweighting loop of \<open>aslsBaseline\<close>; the first argument counts the iterations that
  remain. It returns the last solution \<open>z\<close>.
\<close>

fun aslsLoop ::
  "nat \<Rightarrow> real list \<Rightarrow> real \<Rightarrow> real \<Rightarrow> real \<Rightarrow> real \<Rightarrow> real list \<Rightarrow> real list \<Rightarrow> real list" where
  "aslsLoop 0 ys lam pAbove pBelow tol w z = z"
| "aslsLoop (Suc k) ys lam pAbove pBelow tol w z =
     (let n = length ys;
          z' = solvePentadiagonal ys w lam n;
          newW = map (\<lambda>i. if ys ! i > z' ! i then pAbove else pBelow) [0..<n];
          maxChange = fold (\<lambda>i m. max m \<bar>newW ! i - w ! i\<bar>) [0..<n] 0
      in if maxChange < tol then z'
         else aslsLoop k ys lam pAbove pBelow tol newW z')"

definition aslsBaseline :: "DataPoint list \<Rightarrow> direction \<Rightarrow> AslsConfig \<Rightarrow> DataPoint list" where
  "aslsBaseline data dir config =
     (let n = length data
      in if n < 5 then map (\<lambda>p. plainPoint (potential p) (current p)) data
         else
           let ys = map current data;
               pAbove = (if dir = Forward then asymP config else 1 - asymP config);
               pBelow = 1 - pAbove;
               z = aslsLoop (nat \<lceil>maxIterations config\<rceil>) ys (lambda config) pAbove pBelow
                     (tolerance config) (replicate n 1) ys
           in map (\<lambda>i. plainPoint (potential (data ! i)) (z ! i)) [0..<n])"

subsection \<open>Dispatch\<close>

definition computeBaseline :: "DataPoint list \<Rightarrow> direction \<Rightarrow> AnalysisConfig \<Rightarrow> failure + DataPoint list" where
  "computeBaseline data dir config =
     (case baselineMethod config of
        Linear \<Rightarrow> linearBaseline data (linearAnchorFraction config)
      | Asls \<Rightarrow> Inr (aslsBaseline data dir
                       \<lparr>lambda = aslsLambda config, asymP = aslsP config,
                        maxIterations = 20, tolerance = 1 / 10 ^ 6\<rparr>)
      | Rubberband \<Rightarrow> Inr (rubberbandBaseline data dir
                       \<lparr>iterations = rubberbandIterations config,
                        rbWindowSize = rubberbandWindowSize config\<rparr>))"


section \<open>Smoothing stage (smoothing-pipeline.ts)\<close>

record KernelInfo =
  infoWindowSize :: int
  infoCoefficients :: "real list"

record SmoothingResult =
  smoothedData :: "DataPoint list"
  smoothedCurrent :: "real list"
  smoothingWarnings :: "warning list"
  smoothingKernelInfo :: KernelInfo

definition calculateStandardDeviation :: "real list \<Rightarrow> real" where
  "calculateStandardDeviation vals =
     (if vals = [] then 0
      else
        let mean = fold (\<lambda>val acc. acc + val) vals 0 / real (length vals);
            variance = fold (\<lambda>val acc. acc + (val - mean) ^ 2) vals 0 / real (length vals)
        in sqrt variance)"

definition detectSmoothingArtifacts :: "real list \<Rightarrow> real list \<Rightarrow> nat" where
  "detectSmoothingArtifacts original smoothedVals =
     length (filter (\<lambda>i. let originalChange = \<bar>original ! i - original ! (i - 1)\<bar>;
                             smoothedChange = \<bar>smoothedVals ! i - smoothedVals ! (i - 1)\<bar>
                         in smoothedChange > originalChange * 3)
               [2..<length smoothedVals - 2])"

text \<open>\<open>Math.max(...xs)\<close> and \<open>Math.min(...xs)\<close> are only applied to non-empty arrays here.\<close>

definition calculateAmplitudeRatio :: "real list \<Rightarrow> real list \<Rightarrow> real" where
  "calculateAmplitudeRatio original smoothedVals =
     (let originalAmplitude = Max (set original) - Min (set original);
          smoothedAmplitude = Max (set smoothedVals) - Min (set smoothedVals)
      in if originalAmplitude = 0 then 1 else smoothedAmplitude / originalAmplitude)"

text \<open>
  \<open>noiseReduction = (\<sigma>\<^sub>o - \<sigma>\<^sub>s) / \<sigma>\<^sub>o\<close> is a division of doubles: with \<open>\<sigma>\<^sub>o = 0\<close> it is
  \<open>NaN\<close> when \<open>\<sigma>\<^sub>s = 0\<close> (both comparisons false) and \<open>-Infinity\<close> when \<open>\<sigma>\<^sub>s > 0\<close>
  (only the comparison \<open>< 0.1\<close> true). The two cases are written out.
\<close>

definition validateSmoothingQuality :: "real list \<Rightarrow> real list \<Rightarrow> warning list" where
  "validateSmoothingQuality original smoothedVals =
     (if length original \<noteq> length smoothedVals then [LengthMismatch]
      else
        let originalStdDev = calculateStandardDeviation original;
            smoothedStdDev = calculateStandardDeviation smoothedVals;
            noiseReduction = (originalStdDev - smoothedStdDev) / originalStdDev;
            heavy = (originalStdDev \<noteq> 0 \<and> noiseReduction > 9 / 10);
            minimal = (if originalStdDev = 0 then smoothedStdDev \<noteq> 0 else noiseReduction < 1 / 10);
            artifacts = detectSmoothingArtifacts original smoothedVals;
            amplitudeRatio = calculateAmplitudeRatio original smoothedVals
        in (if heavy then [HeavySmoothing] else [])
           @ (if minimal then [MinimalSmoothing] else [])
           @ (if artifacts > 0 then [SmoothingArtifacts artifacts] else [])
           @ (if amplitudeRatio < 8 / 10 \<or> amplitudeRatio > 12 / 10 then [AmplitudeDistorted] else []))"

text \<open>
  \<open>applySmoothing\<close>: the \<open>throw\<close> on empty data is \<open>Inl\<close>; a failure inside the \<open>try\<close>
  block (the kernel lookup or the convolution) is caught and gives the fallback result,
  which returns the input samples themselves. On the success path every output sample is
  the literal \<open>{ potential, current }\<close>.
\<close>

definition smoothingFallback :: "DataPoint list \<Rightarrow> AnalysisConfig \<Rightarrow> warning list \<Rightarrow> failure \<Rightarrow> SmoothingResult" where
  "smoothingFallback data config ws err =
     \<lparr>smoothedData = data,
      smoothedCurrent = map current data,
      smoothingWarnings = ws @ [SmoothingFailedWith err],
      smoothingKernelInfo = \<lparr>infoWindowSize = smoothingWindow config, infoCoefficients = []\<rparr>\<rparr>"

definition applySmoothing :: "DataPoint list \<Rightarrow> AnalysisConfig \<Rightarrow> failure + SmoothingResult" where
  "applySmoothing data config =
     (if data = [] then Inl DataEmpty
      else
        let ws = (if int (length data) < smoothingWindow config
                  then [DataShorterThanSmoothingWindow (length data) (smoothingWindow config)]
                  else []);
            currentValues = map current data
        in case getNormalizedSmoothingKernel (smoothingWindow config) of
             Inl err \<Rightarrow> Inr (smoothingFallback data config ws err)
           | Inr kern \<Rightarrow>
               (case convolve currentValues kern Mirror of
                  Inl err \<Rightarrow> Inr (smoothingFallback data config ws err)
                | Inr convolutionResult \<Rightarrow>
                    let smoothedVals = result convolutionResult;
                        sd = map (\<lambda>i. plainPoint (potential (data ! i))
                                         (if i < length smoothedVals then smoothedVals ! i
                                          else current (data ! i)))
                                 [0..<length data]
                    in Inr \<lparr>smoothedData = sd,
                            smoothedCurrent = smoothedVals,
                            smoothingWarnings = ws @ conv_warnings convolutionResult
                                                @ validateSmoothingQuality currentValues smoothedVals,
                            smoothingKernelInfo = \<lparr>infoWindowSize = smoothingWindow config,
                                                   infoCoefficients = kern\<rparr>\<rparr>))"

section \<open>Derivative stage (derivative-pipeline.ts)\<close>

record DerivativeStatistics =
  maxSlope :: real
  minSlope :: real
  meanSlope :: real
  zeroCrossings :: nat

record DerivativeResult =
  derivativeCurrent :: "real list"
  derivativeData :: "DataPoint list"
  derivativeWarnings :: "warning list"
  derivativeKernelInfo :: KernelInfo
  statistics :: DerivativeStatistics

definition calculatePotentialSpacing :: "DataPoint list \<Rightarrow> real" where
  "calculatePotentialSpacing data =
     (if length data < 2 then 1
      else
        let spacings = filter (\<lambda>spacing. spacing > 0)
                         (map (\<lambda>i. \<bar>potential (data ! i) - potential (data ! (i - 1))\<bar>)
                              [1..<length data])
        in if spacings = [] then 1
           else
             let sorted = sort spacings;
                 medianIndex = length sorted div 2
             in if even (length sorted)
                then (sorted ! (medianIndex - 1) + sorted ! medianIndex) / 2
                else sorted ! medianIndex)"

definition calculateDerivativeStatistics :: "real list \<Rightarrow> DerivativeStatistics" where
  "calculateDerivativeStatistics deriv =
     (if deriv = [] then \<lparr>maxSlope = 0, minSlope = 0, meanSlope = 0, zeroCrossings = 0\<rparr>
      else
        \<lparr>maxSlope = Max (set deriv),
         minSlope = Min (set deriv),
         meanSlope = fold (\<lambda>val acc. acc + val) deriv 0 / real (length deriv),
         zeroCrossings =
           length (filter (\<lambda>i. let prev = deriv ! (i - 1); curr = deriv ! i
                               in (prev \<ge> 0 \<and> curr < 0) \<or> (prev < 0 \<and> curr \<ge> 0))
                     [1..<length deriv])\<rparr>)"

definition estimateDerivativeNoise :: "real list \<Rightarrow> real" where
  "estimateDerivativeNoise deriv =
     (if length deriv < 10 then 1 / 10
      else
        let highFreqComponent =
              map (\<lambda>i. let localMean = (deriv ! (i - 2) + deriv ! (i - 1) + deriv ! i
                                          + deriv ! (i + 1) + deriv ! (i + 2)) / 5
                        in \<bar>deriv ! i - localMean\<bar>)
                  [2..<length deriv - 2]
        in if highFreqComponent = [] then 1 / 10
           else
             let noiseEstimate = fold (\<lambda>val acc. acc + val) highFreqComponent 0
                                   / real (length highFreqComponent);
                 signalAmplitude = Max (set deriv) - Min (set deriv)
             in if signalAmplitude > 0 then noiseEstimate / signalAmplitude else 0)"

definition validateDerivativeQuality :: "real list \<Rightarrow> real \<Rightarrow> warning list" where
  "validateDerivativeQuality deriv potentialSpacing =
     (if deriv = [] then [DerivativeEmpty]
      else
        let maxDerivative = Max (set deriv);
            minDerivative = Min (set deriv)
        in (if \<bar>maxDerivative\<bar> > 10 ^ 6 \<or> \<bar>minDerivative\<bar> > 10 ^ 6 then [ExtremeDerivative] else [])
           @ (if calculateStandardDeviation deriv < 1 / 10 ^ 10 then [DerivativeNearlyConstant] else [])
           @ (if potentialSpacing < 1 / 10 ^ 6 then [SmallPotentialSpacing] else [])
           @ (if estimateDerivativeNoise deriv > 5 / 10 then [HighDerivativeNoise] else []))"

definition derivativeFallback :: "DataPoint list \<Rightarrow> AnalysisConfig \<Rightarrow> warning list \<Rightarrow> failure \<Rightarrow> DerivativeResult" where
  "derivativeFallback data config ws err =
     \<lparr>derivativeCurrent = replicate (length data) 0,
      derivativeData = map (\<lambda>point. point\<lparr>current := 0\<rparr>) data,
      derivativeWarnings = ws @ [DerivativeFailedWith err],
      derivativeKernelInfo = \<lparr>infoWindowSize = smoothingWindow config, infoCoefficients = []\<rparr>,
      statistics = \<lparr>maxSlope = 0, minSlope = 0, meanSlope = 0, zeroCrossings = 0\<rparr>\<rparr>"

definition calculateDerivative :: "DataPoint list \<Rightarrow> AnalysisConfig \<Rightarrow> failure + DerivativeResult" where
  "calculateDerivative data config =
     (if data = [] then Inl DataEmpty
      else
        let ws = (if int (length data) < smoothingWindow config
                  then [DataShorterThanDerivativeWindow (length data) (smoothingWindow config)]
                  else []);
            currentValues = map current data
        in case getDerivativeKernel (smoothingWindow config) of
             Inl err \<Rightarrow> Inr (derivativeFallback data config ws err)
           | Inr kern \<Rightarrow>
               (case convolve currentValues kern Mirror of
                  Inl err \<Rightarrow> Inr (derivativeFallback data config ws err)
                | Inr convolutionResult \<Rightarrow>
                    let potentialSpacing = calculatePotentialSpacing data;
                        halfWindow = length kern div 2;
                        norm = 2 * fold (\<lambda>i acc. acc + real i * real i) [1..<halfWindow + 1] 0;
                        scaleFactor = norm * potentialSpacing;
                        scaledDerivative = map (\<lambda>val. if scaleFactor > 0 then val / scaleFactor else 0)
                                               (result convolutionResult);
                        dd = map (\<lambda>i. plainPoint (potential (data ! i))
                                         (if i < length scaledDerivative then scaledDerivative ! i else 0))
                                 [0..<length data]
                    in Inr \<lparr>derivativeCurrent = scaledDerivative,
                            derivativeData = dd,
                            derivativeWarnings = ws @ conv_warnings convolutionResult
                                                 @ validateDerivativeQuality scaledDerivative potentialSpacing,
                            derivativeKernelInfo = \<lparr>infoWindowSize = smoothingWindow config,
                                                    infoCoefficients = kern\<rparr>,
                            statistics = calculateDerivativeStatistics scaledDerivative\<rparr>))"


section \<open>Peak analyzer and scan orchestrator (cv-analysis.ts)\<close>

datatype chargeUnit = Coulombs | VoltAmpere

datatype peakType = Oxidation | Reduction

text \<open>
  \<open>CVPeakResult\<close>. The fields \<open>index\<close>, \<open>potential\<close>, \<open>current\<close>, \<open>area\<close> and \<open>type\<close> of
  the source are \<open>peakIndex\<close>, \<open>peakPotential\<close>, \<open>peakCurrent\<close>, \<open>peakArea\<close> and
  \<open>peakType\<close> here; \<open>Coulombs\<close> is the unit \<open>'C'\<close> and \<open>VoltAmpere\<close> the unit \<open>'V\<cdot>A'\<close>.
\<close>

record CVPeakResult =
  peakIndex :: nat
  peakPotential :: real
  peakCurrent :: real
  rawCurrent :: real
  height :: real
  peakArea :: real
  chargeUnit :: chargeUnit
  startIndex :: nat
  endIndex :: nat
  startPotential :: real
  endPotential :: real
  peakType :: peakType

record CVScanResult =
  smoothed :: "DataPoint list"
  derivative :: "real list"
  baseline :: "DataPoint list"
  peaks :: "CVPeakResult list"
  warnings :: "warning list"

text \<open>The candidate objects \<open>{index, magnitude}\<close> and \<open>{...c, prominence}\<close>.\<close>

record PeakCandidate =
  index :: nat
  magnitude :: real

record ProminentCandidate = PeakCandidate +
  prominence :: real

text \<open>The expression \<open>baseline[i]?.current ?? 0\<close>.\<close>

definition baselineCurrentAt :: "DataPoint list \<Rightarrow> nat \<Rightarrow> real" where
  "baselineCurrentAt bl i = (if i < length bl then current (bl ! i) else 0)"

text \<open>
  One outward walk of \<open>computeProminence\<close> over the indices \<open>idxs\<close> in walk order: the
  valley is updated first, then the walk stops at a point beyond the peak value.
\<close>

fun valleyWalk :: "bool \<Rightarrow> real list \<Rightarrow> real \<Rightarrow> nat list \<Rightarrow> real \<Rightarrow> real" where
  "valleyWalk isMax corrected peakVal [] valley = valley"
| "valleyWalk isMax corrected peakVal (i # idxs) valley =
     (if isMax
      then (let v = min valley (corrected ! i)
            in if corrected ! i > peakVal then v else valleyWalk isMax corrected peakVal idxs v)
      else (let v = max valley (corrected ! i)
            in if corrected ! i < peakVal then v else valleyWalk isMax corrected peakVal idxs v))"

definition computeProminence :: "real list \<Rightarrow> nat \<Rightarrow> bool \<Rightarrow> real" where
  "computeProminence corrected peakIdx isMax =
     (let peakVal = corrected ! peakIdx;
          leftValley = valleyWalk isMax corrected peakVal (rev [0..<peakIdx]) peakVal;
          rightValley = valleyWalk isMax corrected peakVal [peakIdx + 1..<length corrected] peakVal
      in if isMax then peakVal - max leftValley rightValley
         else min leftValley rightValley - peakVal)"

text \<open>
  \<open>mergePeaks\<close>. The inner loop runs over all peaks for the current \<open>peak\<close> with the
  state (\<open>best\<close>, \<open>used\<close>); the outer loop has the state (\<open>result\<close>, \<open>used\<close>).
\<close>

definition mergeInner ::
  "real \<Rightarrow> ProminentCandidate \<Rightarrow> ProminentCandidate \<Rightarrow> ProminentCandidate \<times> nat set
     \<Rightarrow> ProminentCandidate \<times> nat set" where
  "mergeInner minSeparation peak other st =
     (case st of (best, used) \<Rightarrow>
        if index other = index peak \<or> index other \<in> used then (best, used)
        else if \<bar>real (index other) - real (index peak)\<bar> < minSeparation
        then (let used1 = insert (index other) used
              in if prominence other > prominence best
                 then (other, insert (index best) used1)
                 else (best, used1))
        else (best, used))"

definition mergeOuter ::
  "real \<Rightarrow> ProminentCandidate list \<Rightarrow> ProminentCandidate \<Rightarrow> ProminentCandidate list \<times> nat set
     \<Rightarrow> ProminentCandidate list \<times> nat set" where
  "mergeOuter minSeparation ps peak st =
     (case st of (res, used) \<Rightarrow>
        if index peak \<in> used then (res, used)
        else (case fold (mergeInner minSeparation peak) ps (peak, used) of
                (best, used1) \<Rightarrow> (res @ [best], insert (index best) used1)))"

definition mergePeaks :: "ProminentCandidate list \<Rightarrow> real \<Rightarrow> ProminentCandidate list" where
  "mergePeaks ps minSeparation =
     (if length ps \<le> 1 then ps
      else fst (fold (mergeOuter minSeparation ps) ps ([], {})))"

text \<open>
  One outward walk of \<open>findPeakBoundaries\<close>: the boundary is the first index of the walk
  where the corrected signal has returned to the baseline, or the last index walked.
\<close>

fun boundaryWalk :: "bool \<Rightarrow> real list \<Rightarrow> nat list \<Rightarrow> nat \<Rightarrow> nat" where
  "boundaryWalk isMax corrected [] b = b"
| "boundaryWalk isMax corrected (i # idxs) b =
     (if (if isMax then corrected ! i \<le> 0 else corrected ! i \<ge> 0) then i
      else boundaryWalk isMax corrected idxs i)"

definition findPeakBoundaries :: "real list \<Rightarrow> nat \<Rightarrow> bool \<Rightarrow> nat \<times> nat" where
  "findPeakBoundaries corrected peakIdx isMax =
     (boundaryWalk isMax corrected (rev [0..<peakIdx]) peakIdx,
      boundaryWalk isMax corrected [peakIdx + 1..<length corrected] peakIdx)"

definition buildEndpointBaseline :: "DataPoint list \<Rightarrow> DataPoint list" where
  "buildEndpointBaseline data =
     (if length data < 2 then map (\<lambda>p. plainPoint (potential p) 0) data
      else
        let first = data ! 0;
            final = data ! (length data - 1);
            potentialRange = potential final - potential first
        in if \<bar>potentialRange\<bar> < 1 / 10 ^ 10
           then (let avg = (current first + current final) / 2
                 in map (\<lambda>p. plainPoint (potential p) avg) data)
           else
             let slope = (current final - current first) / potentialRange;
                 intercept = current first - slope * potential first
             in map (\<lambda>p. plainPoint (potential p) (slope * potential p + intercept)) data)"

definition interpolatePeakPotential :: "DataPoint list \<Rightarrow> real list \<Rightarrow> nat \<Rightarrow> real" where
  "interpolatePeakPotential sm corrected peakIdx =
     (if peakIdx \<le> 0 \<or> int peakIdx \<ge> int (length corrected) - 1 then potential (sm ! peakIdx)
      else
        let yL = corrected ! (peakIdx - 1);
            yC = corrected ! peakIdx;
            yR = corrected ! (peakIdx + 1);
            denom = 2 * (2 * yC - yL - yR)
        in if \<bar>denom\<bar> < 1 / 10 ^ 30 then potential (sm ! peakIdx)
           else
             let offset = (yL - yR) / denom;
                 eL = potential (sm ! (peakIdx - 1));
                 eC = potential (sm ! peakIdx);
                 eR = potential (sm ! (peakIdx + 1))
             in if offset \<ge> 0 then eC + offset * (eR - eC)
                else eC + offset * (eC - eL))"

text \<open>
  \<open>buildIntegrationPoints\<close>: the loop \<open>for (i = startIndex; i <= endIndex && i < data.length; i++)\<close>.
  The abscissa is the sample's time when \<open>useTime\<close> holds and this sample has one, and its
  potential otherwise.
\<close>

definition buildIntegrationPoints ::
  "DataPoint list \<Rightarrow> DataPoint list \<Rightarrow> nat \<Rightarrow> nat \<Rightarrow> bool \<Rightarrow> DataPoint2D list" where
  "buildIntegrationPoints data bl startIdx endIdx useTime =
     map (\<lambda>i. \<lparr>x = (case time (data ! i) of
                        Some t \<Rightarrow> if useTime then t else potential (data ! i)
                      | None \<Rightarrow> potential (data ! i)),
                y = current (data ! i) - baselineCurrentAt bl i\<rparr>)
         [startIdx..<min (endIdx + 1) (length data)]"

definition integratePeakArea ::
  "DataPoint list \<Rightarrow> DataPoint list \<Rightarrow> nat \<Rightarrow> nat \<Rightarrow> bool \<Rightarrow> real" where
  "integratePeakArea data bl startIdx endIdx useTime =
     (let pts = buildIntegrationPoints data bl startIdx endIdx useTime
      in if length pts < 2 then 0
         else
           let res = (if length pts \<ge> 3 \<and> odd (length pts) then simpsons pts else trapz pts)
           in \<bar>area res\<bar>)"


text \<open>
  \<open>findCVPeaks\<close> is called by \<open>analyzeCVScan\<close> only, with \<open>corrected\<close> computed from
  \<open>smoothed\<close> sample by sample, so both have the same length and every read of
  \<open>smoothed\<close> at a peak or boundary index is in range. The two \<open>sort\<close> calls of the
  source are stable; so is \<open>sort_key\<close>.
\<close>

definition peakCandidates :: "real list \<Rightarrow> bool \<Rightarrow> PeakCandidate list" where
  "peakCandidates corrected isOxidation =
     map (\<lambda>i. \<lparr>index = i,
                magnitude = (if isOxidation then corrected ! i else \<bar>corrected ! i\<bar>)\<rparr>)
         (filter (\<lambda>i. if isOxidation
                       then corrected ! i > corrected ! (i - 1) \<and> corrected ! i > corrected ! (i + 1)
                            \<and> corrected ! i > 0
                       else corrected ! i < corrected ! (i - 1) \<and> corrected ! i < corrected ! (i + 1)
                            \<and> corrected ! i < 0)
                 [1..<length corrected - 1])"

definition hasTimeData :: "DataPoint list \<Rightarrow> bool" where
  "hasTimeData sm = (case sm of [] \<Rightarrow> False | p0 # _ \<Rightarrow> time p0 \<noteq> None)"

definition buildPeakResult ::
  "DataPoint list \<Rightarrow> DataPoint list \<Rightarrow> real list \<Rightarrow> bool \<Rightarrow> ProminentCandidate \<Rightarrow> CVPeakResult" where
  "buildPeakResult sm bl corrected isOxidation peak =
     (case findPeakBoundaries corrected (index peak) isOxidation of (sIdx, eIdx) \<Rightarrow>
        let h = \<bar>corrected ! index peak\<bar>;
            precisePotential = interpolatePeakPotential sm corrected (index peak);
            hasTime = hasTimeData sm;
            a = integratePeakArea sm bl sIdx eIdx hasTime;
            unit = (if hasTime then Coulombs else VoltAmpere)
        in \<lparr>peakIndex = index peak,
            peakPotential = precisePotential,
            peakCurrent = current (sm ! index peak),
            rawCurrent = current (sm ! index peak),
            height = h,
            peakArea = a,
            chargeUnit = unit,
            startIndex = sIdx,
            endIndex = eIdx,
            startPotential = potential (sm ! sIdx),
            endPotential = potential (sm ! eIdx),
            peakType = (if isOxidation then Oxidation else Reduction)\<rparr>)"

definition findCVPeaks ::
  "DataPoint list \<Rightarrow> DataPoint list \<Rightarrow> real list \<Rightarrow> direction \<Rightarrow> real \<Rightarrow> CVPeakResult list" where
  "findCVPeaks sm bl corrected dir prominenceThreshold =
     (let n = length corrected
      in if n < 5 then []
         else
           let isOxidation = (dir = Forward);
               candidates = peakCandidates corrected isOxidation
           in if candidates = [] then []
              else
                let maxMag = Max (set (map magnitude candidates));
                    minProminence = maxMag * prominenceThreshold;
                    withProminence =
                      sort_key (\<lambda>c. - prominence c)
                        (filter (\<lambda>c. prominence c \<ge> minProminence)
                           (map (\<lambda>c. \<lparr>index = index c, magnitude = magnitude c,
                                       prominence = computeProminence corrected (index c) isOxidation\<rparr>)
                                candidates));
                    minSeparation = real_of_int (max 5 \<lfloor>real n * 0.02\<rfloor>);
                    merged = mergePeaks withProminence minSeparation;
                    pks = map (buildPeakResult sm bl corrected isOxidation) merged
                in sort_key (\<lambda>pk. if isOxidation then peakPotential pk else - peakPotential pk) pks)"

text \<open>
  \<open>analyzeCVScan\<close>. Each \<open>try\<close>/\<open>catch\<close> around a stage is a case on the stage's result.
\<close>

definition analyzeCVScan :: "DataPoint list \<Rightarrow> AnalysisConfig \<Rightarrow> direction \<Rightarrow> CVScanResult" where
  "analyzeCVScan scanData config scanDirection =
     (if length scanData = 0
      then \<lparr>smoothed = [], derivative = [], baseline = [], peaks = [], warnings = []\<rparr>
      else
        let (sm, ws1) =
              (if smoothingEnabled config
               then (case applySmoothing scanData config of
                       Inr smoothingResult \<Rightarrow>
                         (smoothedData smoothingResult, smoothingWarnings smoothingResult)
                     | Inl _ \<Rightarrow> (scanData, [SmoothingFailedRawData]))
               else (scanData, []));
            (dv, ws2) =
              (case calculateDerivative sm config of
                 Inr derivativeResult \<Rightarrow>
                   (derivativeCurrent derivativeResult, ws1 @ derivativeWarnings derivativeResult)
               | Inl _ \<Rightarrow> (replicate (length sm) 0, ws1 @ [DerivativeFailed]));
            (bl, ws3) =
              (case computeBaseline sm scanDirection config of
                 Inr b \<Rightarrow> (b, ws2)
               | Inl _ \<Rightarrow> (buildEndpointBaseline sm, ws2 @ [BaselineFailedEndpoint]));
            corrected = map (\<lambda>i. current (sm ! i) - baselineCurrentAt bl i) [0..<length sm];
            pks = findCVPeaks sm bl corrected scanDirection (peakProminenceThreshold config)
        in \<lparr>smoothed = sm, derivative = dv, baseline = bl, peaks = pks, warnings = ws3\<rparr>)"


section \<open>Notions used to state and prove the properties\<close>

subsection \<open>The penalty matrix of the specification\<close>

text \<open>
  These definitions follow the specification's words, not the source. \<open>secondDifference\<close>
  is the discrete second-difference operator \<open>D\<^sub>2\<close> on vectors of length \<open>n\<close>: row \<open>k\<close>
  (for \<open>k < n - 2\<close>) has the entries 1, -2, 1 in the columns \<open>k\<close>, \<open>k + 1\<close>, \<open>k + 2\<close>.
  \<open>penaltyEntry n i j\<close> is the entry \<open>(i, j)\<close> of \<open>D\<^sub>2\<^sup>T D\<^sub>2\<close>. \<open>bandedEntry\<close> reads the
  symmetric matrix that the three stored bands stand for, as the source's comments give
  it: \<open>a[i] = A[i][i]\<close>, \<open>e[i] = A[i+1][i]\<close>, \<open>f[i] = A[i+2][i]\<close>.
\<close>

definition secondDifference :: "nat \<Rightarrow> nat \<Rightarrow> real" where
  "secondDifference k c = (if c = k then 1 else if c = k + 1 then -2 else if c = k + 2 then 1 else 0)"

definition penaltyEntry :: "nat \<Rightarrow> nat \<Rightarrow> nat \<Rightarrow> real" where
  "penaltyEntry n i j = (\<Sum>k<n - 2. secondDifference k i * secondDifference k j)"

definition bandedEntry :: "real list \<times> real list \<times> real list \<Rightarrow> nat \<Rightarrow> nat \<Rightarrow> real" where
  "bandedEntry bands i j =
     (case bands of (a, e, f) \<Rightarrow>
        if i = j then a ! i
        else if i = j + 1 then e ! j
        else if j = i + 1 then e ! i
        else if i = j + 2 then f ! j
        else if j = i + 2 then f ! i
        else 0)"

subsection \<open>Peaks that are too close\<close>

text \<open>
  \<open>tooClose\<close> is the test of the inner loop of \<open>mergePeaks\<close> (another index, nearer than
  the minimum separation); \<open>neighbours\<close> are the indices the inner loop marks as used.
\<close>

definition tooClose :: "real \<Rightarrow> ProminentCandidate \<Rightarrow> ProminentCandidate \<Rightarrow> bool" where
  "tooClose ms p q = (index q \<noteq> index p \<and> \<bar>real (index q) - real (index p)\<bar> < ms)"

definition neighbours :: "real \<Rightarrow> ProminentCandidate list \<Rightarrow> ProminentCandidate \<Rightarrow> nat set" where
  "neighbours ms ps p = index ` {q \<in> set ps. tooClose ms p q}"

text \<open>The invariant of the outer loop after the prefix \<open>pre\<close> of \<open>ps\<close>.\<close>

definition mergeInv ::
  "real \<Rightarrow> ProminentCandidate list \<Rightarrow> ProminentCandidate list \<Rightarrow> ProminentCandidate list \<times> nat set \<Rightarrow> bool" where
  "mergeInv ms ps pre st =
     (case st of (res, used) \<Rightarrow>
        index ` set pre \<subseteq> used
      \<and> index ` set res \<subseteq> used
      \<and> set res \<subseteq> set ps
      \<and> distinct (map index res)
      \<and> (\<forall>a\<in>set res. neighbours ms ps a \<subseteq> used)
      \<and> (\<forall>a\<in>set res. \<forall>b\<in>set res. \<not> tooClose ms a b))"

subsection \<open>Two example scans\<close>

text \<open>
  Five samples forming one triangular peak. In \<open>mixedTimeScan\<close> the apex sample has no
  time value and the others have one; in \<open>timedScan\<close> every sample has a time value. The
  other constants are the intermediate results of the pipeline on them (a linear baseline
  with the default anchor fraction), named so that the evaluations below can refer to them.
\<close>

definition mixedTimeCorrected :: "real list" where
  "mixedTimeCorrected = [-1/2, 1/2, 5/2, 1/2, -1/2]"

definition mixedTimeScan :: "DataPoint list" where
  "mixedTimeScan = [(plainPoint 0 0)\<lparr>time := Some 0\<rparr>, (plainPoint (1/10) 1)\<lparr>time := Some 1\<rparr>,
         plainPoint (2/10) 3, (plainPoint (3/10) 1)\<lparr>time := Some 3\<rparr>,
         (plainPoint (4/10) 0)\<lparr>time := Some 4\<rparr>]"

definition mixedTimeBaseline :: "DataPoint list" where
  "mixedTimeBaseline = [plainPoint 0 (1/2), plainPoint (1/10) (1/2), plainPoint (2/10) (1/2),
         plainPoint (3/10) (1/2), plainPoint (4/10) (1/2)]"

definition linearConfig :: AnalysisConfig where
  "linearConfig = \<lparr>smoothingEnabled = False, smoothingWindow = 5, baselineMethod = Linear,
       scanRate = None, aslsLambda = 10 ^ 6, aslsP = 1 / 100, rubberbandIterations = 40,
       rubberbandWindowSize = 80, linearAnchorFraction = 1 / 10,
       peakProminenceThreshold = 5 / 100\<rparr>"

definition timedScan :: "DataPoint list" where
  "timedScan = [(plainPoint 0 0)\<lparr>time := Some 0\<rparr>, (plainPoint (1/10) 1)\<lparr>time := Some 1\<rparr>,
         (plainPoint (2/10) 3)\<lparr>time := Some 2\<rparr>, (plainPoint (3/10) 1)\<lparr>time := Some 3\<rparr>,
         (plainPoint (4/10) 0)\<lparr>time := Some 4\<rparr>]"

definition timedSmoothed :: "DataPoint list" where
  "timedSmoothed = [plainPoint 0 (6/35), plainPoint (1/10) (47/35), plainPoint (2/10) (15/7),
         plainPoint (3/10) (47/35), plainPoint (4/10) (6/35)]"

definition timedBaseline :: "DataPoint list" where
  "timedBaseline = [plainPoint 0 (53/70), plainPoint (1/10) (53/70), plainPoint (2/10) (53/70),
         plainPoint (3/10) (53/70), plainPoint (4/10) (53/70)]"

definition timedCorrected :: "real list" where
  "timedCorrected = [-41/70, 41/70, 97/70, 41/70, -41/70]"

definition smoothingLinearConfig :: AnalysisConfig where
  "smoothingLinearConfig = \<lparr>smoothingEnabled = True, smoothingWindow = 5, baselineMethod = Linear,
       scanRate = None, aslsLambda = 10 ^ 6, aslsP = 1 / 100, rubberbandIterations = 40,
       rubberbandWindowSize = 80, linearAnchorFraction = 1 / 10,
       peakProminenceThreshold = 5 / 100\<rparr>"


section \<open>Properties\<close>

subsection \<open>Shared lemmas on the loops\<close>

lemma fold_add_sum_list:
  "fold (\<lambda>i (acc::real). acc + g i) xs a = a + sum_list (map g xs)"
  by (induction xs arbitrary: a) auto

lemma sum_list_const_real: "sum_list (map (\<lambda>_. c::real) xs) = real (length xs) * c"
  by (induction xs) (auto simp: algebra_simps)

lemma filter_even_upt: "filter even [0..<n] = map (\<lambda>k. 2 * k) [0..<(n + 1) div 2]"
proof (induction n)
  case 0
  then show ?case by simp
next
  case (Suc n)
  show ?case
  proof (cases "even n")
    case True
    then have "(Suc n + 1) div 2 = Suc ((n + 1) div 2)" "2 * ((n + 1) div 2) = n" by auto
    then show ?thesis using Suc True by simp
  next
    case False
    then have "(Suc n + 1) div 2 = (n + 1) div 2" by auto
    then show ?thesis using Suc False by simp
  qed
qed

lemma trapz_area: "area (trapz points) = (if length points < 2 then 0 else trapzSum points)"
  by (subst trapz.simps) (simp add: Let_def)


lemma current_plainPoint [simp]: "current (plainPoint e c) = c"
  and potential_plainPoint [simp]: "potential (plainPoint e c) = e"
  and time_plainPoint [simp]: "time (plainPoint e c) = None"
  and appliedPotential_plainPoint [simp]: "appliedPotential (plainPoint e c) = None"
  by (simp_all add: plainPoint_def)

subsection \<open>Shared lemmas on the orchestrator and the peak analyzer\<close>

lemma findCVPeaks_charge:
  assumes "pk \<in> set (findCVPeaks sm bl corrected dir thr)"
  shows "chargeUnit pk = (if hasTimeData sm then Coulombs else VoltAmpere)
       \<and> peakArea pk = integratePeakArea sm bl (startIndex pk) (endIndex pk) (hasTimeData sm)"
proof -
  have "\<exists>peak. pk = buildPeakResult sm bl corrected (dir = Forward) peak"
    using assms by (auto simp: findCVPeaks_def Let_def split: if_splits)
  then obtain peak where "pk = buildPeakResult sm bl corrected (dir = Forward) peak" ..
  then show ?thesis
    by (simp add: buildPeakResult_def Let_def split: prod.splits)
qed

lemma buildIntegrationPoints_no_time:
  assumes "\<forall>p\<in>set sm. time p = None"
  shows "buildIntegrationPoints sm bl s e useTime
           = map (\<lambda>i. \<lparr>x = potential (sm ! i), y = current (sm ! i) - baselineCurrentAt bl i\<rparr>)
               [s..<min (e + 1) (length sm)]"
  unfolding buildIntegrationPoints_def
  by (rule map_cong[OF refl]) (use assms in \<open>auto simp: all_set_conv_all_nth\<close>)

lemma hasTimeData_no_time:
  assumes "\<forall>p\<in>set sm. time p = None"
  shows "\<not> hasTimeData sm"
  using assms by (cases sm) (auto simp: hasTimeData_def)

lemma analyzeCVScan_peaks:
  assumes "scanData \<noteq> []"
  shows "peaks (analyzeCVScan scanData config dir)
           = findCVPeaks (smoothed (analyzeCVScan scanData config dir))
               (baseline (analyzeCVScan scanData config dir))
               (map (\<lambda>i. current (smoothed (analyzeCVScan scanData config dir) ! i)
                          - baselineCurrentAt (baseline (analyzeCVScan scanData config dir)) i)
                    [0..<length (smoothed (analyzeCVScan scanData config dir))])
               dir (peakProminenceThreshold config)"
  using assms by (simp add: analyzeCVScan_def Let_def split: prod.splits)

lemma analyzeCVScan_smoothed:
  assumes "scanData \<noteq> []"
  shows "smoothed (analyzeCVScan scanData config dir)
           = (if smoothingEnabled config
              then (case applySmoothing scanData config of
                      Inr r \<Rightarrow> smoothedData r | Inl _ \<Rightarrow> scanData)
              else scanData)"
  using assms by (simp add: analyzeCVScan_def Let_def split: prod.splits sum.splits)

lemma analyzeCVScan_baseline:
  assumes "scanData \<noteq> []"
  shows "baseline (analyzeCVScan scanData config dir)
           = (case computeBaseline (smoothed (analyzeCVScan scanData config dir)) dir config of
                Inr b \<Rightarrow> b
              | Inl _ \<Rightarrow> buildEndpointBaseline (smoothed (analyzeCVScan scanData config dir)))"
  using assms by (simp add: analyzeCVScan_def Let_def split: prod.splits sum.splits)

subsection \<open>Convolution of a constant signal\<close>

lemma getDataValue_replicate:
  assumes "0 < n"
  shows "getDataValue (replicate n c) idx edge = c"
proof -
  have "nat (min \<bar>idx\<bar> (int n - 1)) < n" using assms by auto
  moreover have "idx \<ge> int n \<Longrightarrow> nat (max 0 (2 * int n - idx - 2)) < n" using assms by auto
  ultimately show ?thesis using assms
    by (cases edge) (auto simp: getDataValue_def Let_def)
qed

lemma convolveAt_replicate:
  assumes "0 < n"
  shows "convolveAt (replicate n c) kern edge i = c * sum_list kern"
proof -
  have "convolveStep (replicate n c) kern edge i = (\<lambda>j acc. acc + c * (kern ! j))"
    by (intro ext) (simp add: convolveStep_def Let_def getDataValue_replicate[OF assms])
  then have "convolveAt (replicate n c) kern edge i = sum_list (map (\<lambda>j. c * (kern ! j)) [0..<length kern])"
    by (simp add: convolveAt_def fold_add_sum_list)
  also have "\<dots> = c * sum_list (map (\<lambda>j. kern ! j) [0..<length kern])"
    by (simp add: sum_list_const_mult)
  also have "map (\<lambda>j. kern ! j) [0..<length kern] = kern"
    by (simp add: map_nth)
  finally show ?thesis .
qed

text \<open>
  Claim C6. Convolving a constant array of value \<open>c\<close> (length at least 1) with a kernel
  whose coefficients sum to 1 succeeds and returns \<open>c\<close> at every output position, under
  each of the edge modes mirror, constant and extend.
\<close>

theorem convolve_constant_input:
  assumes "1 \<le> n" and "sum_list kern = 1"
  shows "\<exists>r. convolve (replicate n c) kern edge = Inr r \<and> result r = replicate n c"
proof -
  have n: "0 < n" using assms by simp
  have k: "kern \<noteq> []" using assms(2) by auto
  have "map (convolveAt (replicate n c) kern edge) [0..<n] = replicate n c"
    by (intro nth_equalityI) (simp_all add: convolveAt_replicate[OF n] assms(2))
  then show ?thesis using n k by (simp add: convolve_def Let_def)
qed

theorem convolve_constant_input_witness:
  "(1::nat) \<le> 3 \<and> sum_list [1 / 8, 1 / 4, 1 / 4, 1 / 4, 1 / 8 :: real] = 1
   \<and> convolve [2, 2, 2] [1 / 8, 1 / 4, 1 / 4, 1 / 4, 1 / 8] Mirror
       = Inr \<lparr>result = [2, 2, 2], conv_edgeHandling = Mirror,
              conv_warnings = [KernelLargerThanData]\<rparr>
   \<and> convolve [2, 2, 2] [1 / 8, 1 / 4, 1 / 4, 1 / 4, 1 / 8] Constant
       = Inr \<lparr>result = [2, 2, 2], conv_edgeHandling = Constant,
              conv_warnings = [KernelLargerThanData]\<rparr>
   \<and> (\<exists>r. convolve (replicate 3 2) [1 / 8, 1 / 4, 1 / 4, 1 / 4, 1 / 8] Extend = Inr r
            \<and> result r = replicate 3 2)"
proof -
  have h: "(1::nat) \<le> 3" "sum_list [1 / 8, 1 / 4, 1 / 4, 1 / 4, 1 / 8 :: real] = 1" by simp_all
  have a: "convolve [2, 2, 2] [1 / 8, 1 / 4, 1 / 4, 1 / 4, 1 / 8] Mirror
       = Inr \<lparr>result = [2, 2, 2], conv_edgeHandling = Mirror,
              conv_warnings = [KernelLargerThanData]\<rparr>"
    by (simp add: convolve_def convolveAt_def convolveStep_def getDataValue_def Let_def upt_rec
        nth_Cons')
  have b: "convolve [2, 2, 2] [1 / 8, 1 / 4, 1 / 4, 1 / 4, 1 / 8] Constant
       = Inr \<lparr>result = [2, 2, 2], conv_edgeHandling = Constant,
              conv_warnings = [KernelLargerThanData]\<rparr>"
    by (simp add: convolve_def convolveAt_def convolveStep_def getDataValue_def Let_def upt_rec
        nth_Cons')
  have c: "\<exists>r. convolve (replicate 3 2) [1 / 8, 1 / 4, 1 / 4, 1 / 4, 1 / 8] Extend = Inr r
            \<and> result r = replicate 3 2"
    using convolve_constant_input [OF h, of 2 Extend] .
  show ?thesis using h a b c by blast
qed

subsection \<open>The kernel table\<close>

lemma rev_neg_antisymmetric:
  assumes "rev d = map uminus (d :: real list)" and "length d = 2 * m + 1" and "k \<le> m"
  shows "d ! (m - k) = - d ! (m + k)"
proof -
  have lt: "m + k < length d" using assms by simp
  have "rev d ! (m + k) = d ! (length d - Suc (m + k))" using lt by (rule rev_nth)
  also have "length d - Suc (m + k) = m - k" using assms by simp
  finally have "d ! (m - k) = rev d ! (m + k)" by simp
  also have "\<dots> = - d ! (m + k)" using lt by (simp add: assms(1))
  finally show ?thesis .
qed

lemma kernel_5:
  "\<exists>s d. getNormalizedSmoothingKernel 5 = Inr s \<and> sum_list s = 1 \<and> length s = 5
     \<and> getDerivativeKernel 5 = Inr d \<and> length d = 5 \<and> rev d = map uminus d"
  by (simp add: getNormalizedSmoothingKernel_def getDerivativeKernel_def
      SG_KERNEL_REGISTRY_def SG_KERNELS_5_def Let_def)

lemma kernel_9:
  "\<exists>s d. getNormalizedSmoothingKernel 9 = Inr s \<and> sum_list s = 1 \<and> length s = 9
     \<and> getDerivativeKernel 9 = Inr d \<and> length d = 9 \<and> rev d = map uminus d"
  by (simp add: getNormalizedSmoothingKernel_def getDerivativeKernel_def
      SG_KERNEL_REGISTRY_def SG_KERNELS_9_def Let_def)

lemma kernel_11:
  "\<exists>s d. getNormalizedSmoothingKernel 11 = Inr s \<and> sum_list s = 1 \<and> length s = 11
     \<and> getDerivativeKernel 11 = Inr d \<and> length d = 11 \<and> rev d = map uminus d"
  by (simp add: getNormalizedSmoothingKernel_def getDerivativeKernel_def
      SG_KERNEL_REGISTRY_def SG_KERNELS_11_def Let_def)

lemma kernel_15:
  "\<exists>s d. getNormalizedSmoothingKernel 15 = Inr s \<and> sum_list s = 1 \<and> length s = 15
     \<and> getDerivativeKernel 15 = Inr d \<and> length d = 15 \<and> rev d = map uminus d"
  by (simp add: getNormalizedSmoothingKernel_def getDerivativeKernel_def
      SG_KERNEL_REGISTRY_def SG_KERNELS_15_def Let_def)

lemma kernel_21:
  "\<exists>s d. getNormalizedSmoothingKernel 21 = Inr s \<and> sum_list s = 1 \<and> length s = 21
     \<and> getDerivativeKernel 21 = Inr d \<and> length d = 21 \<and> rev d = map uminus d"
  by (simp add: getNormalizedSmoothingKernel_def getDerivativeKernel_def
      SG_KERNEL_REGISTRY_def SG_KERNELS_21_def Let_def)

lemma kernel_supported:
  assumes "ws \<in> {5, 9, 11, 15, 21}"
  shows "\<exists>s d. getNormalizedSmoothingKernel ws = Inr s \<and> sum_list s = 1 \<and> length s = nat ws
     \<and> getDerivativeKernel ws = Inr d \<and> length d = nat ws \<and> rev d = map uminus d"
proof -
  consider "ws = 5" | "ws = 9" | "ws = 11" | "ws = 15" | "ws = 21" using assms by auto
  then show ?thesis
  proof cases
    case 1 then show ?thesis using kernel_5 by simp
  next
    case 2 then show ?thesis using kernel_9 by simp
  next
    case 3 then show ?thesis using kernel_11 by simp
  next
    case 4 then show ?thesis using kernel_15 by simp
  next
    case 5 then show ?thesis using kernel_21 by simp
  qed
qed

text \<open>
  Claim C7. For every supported window size (5, 9, 11, 15, 21) the normalized smoothing
  kernel is found and its coefficients sum to 1 within \<open>10\<^sup>-\<^sup>9\<close> (exactly, over the
  reals), and the derivative kernel is found, has odd length, has centre coefficient 0 and
  is antisymmetric about its centre: the coefficient at offset \<open>-k\<close> is the negation of
  the coefficient at offset \<open>+k\<close>.
\<close>

theorem kernels_normalized_antisymmetric:
  assumes "ws \<in> {5, 9, 11, 15, 21}"
  shows "\<exists>s d. getNormalizedSmoothingKernel ws = Inr s \<and> getDerivativeKernel ws = Inr d
           \<and> \<bar>sum_list s - 1\<bar> \<le> 1 / 10 ^ 9
           \<and> length d = 2 * (length d div 2) + 1
           \<and> d ! (length d div 2) = 0
           \<and> (\<forall>k \<le> length d div 2. d ! (length d div 2 - k) = - d ! (length d div 2 + k))"
proof -
  obtain s d where sd: "getNormalizedSmoothingKernel ws = Inr s" "sum_list s = 1"
      "getDerivativeKernel ws = Inr d" "length d = nat ws" "rev d = map uminus d"
    using kernel_supported[OF assms] by blast
  have odd: "length d = 2 * (length d div 2) + 1"
    using assms sd(4) by auto
  have anti: "\<And>k. k \<le> length d div 2 \<Longrightarrow> d ! (length d div 2 - k) = - d ! (length d div 2 + k)"
    using rev_neg_antisymmetric[OF sd(5) odd] by blast
  have "d ! (length d div 2) = - d ! (length d div 2)" using anti[of 0] by simp
  then have c: "d ! (length d div 2) = 0" by simp
  show ?thesis using sd(1,2,3) odd c anti by simp
qed

theorem kernels_normalized_antisymmetric_witness:
  "(5::int) \<in> {5, 9, 11, 15, 21}
   \<and> getNormalizedSmoothingKernel 5 = Inr [-3/35, 12/35, 17/35, 12/35, -3/35]
   \<and> getDerivativeKernel 5 = Inr [-2, -1, 0, 1, 2]
   \<and> (\<exists>s d. getNormalizedSmoothingKernel 5 = Inr s \<and> getDerivativeKernel 5 = Inr d
           \<and> \<bar>sum_list s - 1\<bar> \<le> 1 / 10 ^ 9
           \<and> length d = 2 * (length d div 2) + 1
           \<and> d ! (length d div 2) = 0
           \<and> (\<forall>k \<le> length d div 2. d ! (length d div 2 - k) = - d ! (length d div 2 + k)))"
proof -
  have m: "(5::int) \<in> {5, 9, 11, 15, 21}" by simp
  have a: "getNormalizedSmoothingKernel 5 = Inr [-3/35, 12/35, 17/35, 12/35, -3/35]"
    by (simp add: getNormalizedSmoothingKernel_def SG_KERNEL_REGISTRY_def SG_KERNELS_5_def Let_def)
  have b: "getDerivativeKernel 5 = Inr [-2, -1, 0, 1, 2]"
    by (simp add: getDerivativeKernel_def SG_KERNEL_REGISTRY_def SG_KERNELS_5_def)
  show ?thesis using m a b kernels_normalized_antisymmetric [OF m] by blast
qed


subsection \<open>Trapezoidal rule and its error estimate\<close>

text \<open>
  Claim C8. The trapezoidal rule returns an error estimate exactly when the list has at
  least 4 points; it is \<open>|coarse - full| / 3\<close>, where \<open>coarse\<close> is the trapezoidal area
  over the points of even index 0, 2, 4, ...; with fewer than 4 points the error is absent.
\<close>

theorem trapz_richardson_error:
  "error (trapz points) =
     (if 4 \<le> length points
      then Some (\<bar>area (trapz (coarsePoints points)) - area (trapz points)\<bar> / 3)
      else None)
   \<and> coarsePoints points = map (\<lambda>k. points ! (2 * k)) [0..<(length points + 1) div 2]"
proof -
  have "coarsePoints points = map (\<lambda>k. points ! (2 * k)) [0..<(length points + 1) div 2]"
    by (simp add: coarsePoints_def filter_even_upt comp_def)
  moreover have "error (trapz points) =
     (if 4 \<le> length points
      then Some (\<bar>area (trapz (coarsePoints points)) - area (trapz points)\<bar> / 3)
      else None)"
    by (subst trapz.simps, subst estimateIntegrationError.simps) (simp add: Let_def trapz_area)
  ultimately show ?thesis by simp
qed


theorem trapz_richardson_error_witness:
  "trapz [\<lparr>x = 0, y = 0\<rparr>, \<lparr>x = 1, y = 1\<rparr>, \<lparr>x = 2, y = 4\<rparr>, \<lparr>x = 3, y = 9\<rparr>]
     = \<lparr>area = 19 / 2, error = Some (11 / 6)\<rparr>
   \<and> area (trapz (coarsePoints [\<lparr>x = 0, y = 0\<rparr>, \<lparr>x = 1, y = 1\<rparr>, \<lparr>x = 2, y = 4\<rparr>, \<lparr>x = 3, y = 9\<rparr>])) = 4
   \<and> error (trapz [\<lparr>x = 0, y = 0\<rparr>, \<lparr>x = 1, y = 1\<rparr>, \<lparr>x = 2, y = 4\<rparr>]) = None"
proof -
  let ?p = "[\<lparr>x = 0, y = 0\<rparr>, \<lparr>x = 1, y = 1\<rparr>, \<lparr>x = 2, y = 4\<rparr>, \<lparr>x = 3, y = 9\<rparr>]"
  have a: "trapz ?p = \<lparr>area = 19 / 2, error = Some (11 / 6)\<rparr>"
    by (simp add: trapz.simps estimateIntegrationError.simps Let_def trapzSum_def trapzStep_def
      coarsePoints_def upt_rec nth_Cons')
  have "error (trapz ?p) = Some (\<bar>area (trapz (coarsePoints ?p)) - area (trapz ?p)\<bar> / 3)"
    using trapz_richardson_error [of ?p] by simp
  then have "\<bar>area (trapz (coarsePoints ?p)) - 19 / 2\<bar> = 11 / 2" using a by simp
  moreover have "area (trapz (coarsePoints ?p)) = 4"
    by (simp add: trapz.simps estimateIntegrationError.simps Let_def trapzSum_def trapzStep_def
      coarsePoints_def upt_rec nth_Cons')
  moreover have "error (trapz [\<lparr>x = 0, y = 0\<rparr>, \<lparr>x = 1, y = 1\<rparr>, \<lparr>x = 2, y = 4\<rparr>]) = None"
    using trapz_richardson_error [of "[\<lparr>x = 0, y = 0\<rparr>, \<lparr>x = 1, y = 1\<rparr>, \<lparr>x = 2, y = 4\<rparr>]"] by simp
  ultimately show ?thesis using a by simp
qed


subsection \<open>Integrating the constant 1 over [0, 10]\<close>

lemma trapzSum_unit:
  assumes "2 \<le> n"
  shows "trapzSum (map (\<lambda>i. \<lparr>x = 10 * real i / real (n - 1), y = 1\<rparr>) [0..<n]) = 10"
proof -
  let ?p = "map (\<lambda>i. \<lparr>x = 10 * real i / real (n - 1), y = 1\<rparr>) [0..<n]"
  have step: "\<And>i acc. i \<in> set [1..<n] \<Longrightarrow> trapzStep ?p i acc = acc + 10 / real (n - 1)"
  proof -
    fix i acc assume "i \<in> set [1..<n]"
    then have i: "1 \<le> i" "i < n" by auto
    then have "real i - real (i - 1) = 1" by (simp add: of_nat_diff)
    then have "10 * real i / real (n - 1) - 10 * real (i - 1) / real (n - 1) = 10 / real (n - 1)"
      by (simp add: diff_divide_distrib[symmetric] right_diff_distrib[symmetric])
    moreover have "i - 1 < n" using i by simp
    ultimately show "trapzStep ?p i acc = acc + 10 / real (n - 1)"
      using i by (simp add: trapzStep_def Let_def del: of_nat_diff)
  qed
  have "fold (trapzStep ?p) [1..<n] 0 = fold (\<lambda>i acc. acc + 10 / real (n - 1)) [1..<n] 0"
    by (rule fold_cong[OF refl refl]) (rule ext, rule step)
  also have "\<dots> = real (n - 1) * (10 / real (n - 1))"
    by (simp add: fold_add_sum_list sum_list_const_real)
  also have "\<dots> = 10"
  proof -
    have "real (n - 1) \<noteq> 0" using assms by simp
    then show ?thesis by (simp del: of_nat_diff)
  qed
  finally show ?thesis by (simp add: trapzSum_def)
qed

lemma simpson_unit:
  assumes "3 \<le> n" "odd n"
  shows "fold (simpsonStep (map (\<lambda>i. \<lparr>x = 10 * real i / real (n - 1), y = 1\<rparr>) [0..<n]))
           (filter even [0..<n - 2]) 0 = 10"
proof -
  let ?p = "map (\<lambda>i. \<lparr>x = 10 * real i / real (n - 1), y = 1\<rparr>) [0..<n]"
  have step: "\<And>i acc. i \<in> set (filter even [0..<n - 2]) \<Longrightarrow> simpsonStep ?p i acc = acc + 20 / real (n - 1)"
  proof -
    fix i acc assume "i \<in> set (filter even [0..<n - 2])"
    then have i: "i + 2 < n" by auto
    have "10 * real (i + 1) / real (n - 1) - 10 * real i / real (n - 1) = 10 / real (n - 1)"
      by (simp add: diff_divide_distrib[symmetric] algebra_simps)
    then show "simpsonStep ?p i acc = acc + 20 / real (n - 1)"
      using i by (simp add: simpsonStep_def Let_def)
  qed
  have "fold (simpsonStep ?p) (filter even [0..<n - 2]) 0
          = fold (\<lambda>i acc. acc + 20 / real (n - 1)) (filter even [0..<n - 2]) 0"
    by (rule fold_cong[OF refl refl]) (rule ext, rule step)
  also have "\<dots> = real ((n - 2 + 1) div 2) * (20 / real (n - 1))"
    by (simp add: fold_add_sum_list sum_list_const_real length_filter_even_upt)
  also have "(n - 2 + 1) div 2 = (n - 1) div 2" using assms by presburger
  also have "real ((n - 1) div 2) = real (n - 1) / 2"
  proof -
    have "even (n - 1)" using assms by simp
    then obtain k where k: "n - 1 = 2 * k" by (elim evenE)
    show ?thesis unfolding k by simp
  qed
  also have "real (n - 1) / 2 * (20 / real (n - 1)) = 10"
  proof -
    have "real (n - 1) \<noteq> 0" using assms by simp
    then show ?thesis by (simp del: of_nat_diff)
  qed
  finally show ?thesis .
qed

text \<open>
  Claim C9. On \<open>n\<close> uniformly spaced samples of \<open>y = 1\<close> over \<open>[0, 10]\<close> the
  trapezoidal rule returns 10 within \<open>10\<^sup>-\<^sup>9\<close> for every \<open>n \<ge> 2\<close>, and so does Simpson's
  rule for every odd \<open>n \<ge> 3\<close> (both exactly, over the reals).
\<close>

theorem unit_integral_is_ten:
  assumes "2 \<le> n"
  shows "\<bar>area (trapz (map (\<lambda>i. \<lparr>x = 10 * real i / real (n - 1), y = 1\<rparr>) [0..<n])) - 10\<bar> \<le> 1 / 10 ^ 9
       \<and> (odd n \<longrightarrow>
           \<bar>area (simpsons (map (\<lambda>i. \<lparr>x = 10 * real i / real (n - 1), y = 1\<rparr>) [0..<n])) - 10\<bar> \<le> 1 / 10 ^ 9)"
proof -
  let ?p = "map (\<lambda>i. \<lparr>x = 10 * real i / real (n - 1), y = 1\<rparr>) [0..<n]"
  have t: "area (trapz ?p) = 10" using assms trapzSum_unit[OF assms] by (simp add: trapz_area)
  have "odd n \<Longrightarrow> area (simpsons ?p) = 10"
  proof -
    assume o: "odd n"
    then have "3 \<le> n" using assms by (auto elim!: oddE)
    then show ?thesis using o simpson_unit[of n] by (simp add: simpsons_def Let_def)
  qed
  then show ?thesis using t by simp
qed


theorem unit_integral_is_ten_witness:
  "(2::nat) \<le> 3 \<and> odd (3::nat)
   \<and> \<bar>area (trapz [\<lparr>x = 0, y = 1\<rparr>, \<lparr>x = 5, y = 1\<rparr>, \<lparr>x = 10, y = 1\<rparr>]) - 10\<bar> \<le> 1 / 10 ^ 9
   \<and> \<bar>area (simpsons [\<lparr>x = 0, y = 1\<rparr>, \<lparr>x = 5, y = 1\<rparr>, \<lparr>x = 10, y = 1\<rparr>]) - 10\<bar> \<le> 1 / 10 ^ 9"
proof -
  have m: "map (\<lambda>i. \<lparr>x = 10 * real i / real (3 - 1), y = 1\<rparr>) [0..<3]
             = [\<lparr>x = 0, y = 1\<rparr>, \<lparr>x = 5, y = 1\<rparr>, \<lparr>x = 10, y = 1\<rparr>]"
    by (simp add: upt_rec)
  have h: "(2::nat) \<le> 3" by simp
  show ?thesis using unit_integral_is_ten [OF h] unfolding m by simp
qed


subsection \<open>The empty scan\<close>

text \<open>
  Claim C10. For an empty input scan the orchestrator returns the empty result: empty
  smoothed, derivative, baseline and peak sequences and no warning, for every
  configuration and scan direction. The model of \<open>analyzeCVScan\<close> returns a plain
  result, so returning it is returning without an error.
\<close>

theorem analyze_empty_scan:
  "analyzeCVScan [] config scanDirection
     = \<lparr>smoothed = [], derivative = [], baseline = [], peaks = [], warnings = []\<rparr>"
  by (simp add: analyzeCVScan_def)

theorem analyze_empty_scan_witness:
  "analyzeCVScan []
      \<lparr>smoothingEnabled = True, smoothingWindow = 11, baselineMethod = Asls, scanRate = None,
       aslsLambda = 10 ^ 6, aslsP = 1 / 100, rubberbandIterations = 40,
       rubberbandWindowSize = 80, linearAnchorFraction = 1 / 10,
       peakProminenceThreshold = 5 / 100\<rparr> Reverse
     = \<lparr>smoothed = [], derivative = [], baseline = [], peaks = [], warnings = []\<rparr>"
  by (rule analyze_empty_scan)

subsection \<open>The rubberband baseline stays on its side of the data\<close>

text \<open>
  Claim C2. For every sample sequence, direction and rubberband configuration the
  rubberband baseline is aligned one to one with the input (same length, same
  potentials), and at every index its current is at most the data's current for the
  forward direction and at least the data's current for the reverse direction.
\<close>

theorem rubberband_never_crosses:
  "length (rubberbandBaseline data dir config) = length data
   \<and> (\<forall>i < length data.
         potential (rubberbandBaseline data dir config ! i) = potential (data ! i)
         \<and> (dir = Forward \<longrightarrow>
              current (rubberbandBaseline data dir config ! i) \<le> current (data ! i))
         \<and> (dir = Reverse \<longrightarrow>
              current (rubberbandBaseline data dir config ! i) \<ge> current (data ! i)))"
proof (cases "length data < 3")
  case True
  then show ?thesis by (simp add: rubberbandBaseline_def)
next
  case False
  then show ?thesis
    by (cases dir) (simp_all add: rubberbandBaseline_def Let_def)
qed

text \<open>
  An evaluation on three samples with currents 1, 5, 2 and the default configuration:
  the first iteration flattens the envelope to 1, every later one keeps it.
\<close>

lemma rubberband_step_forward_example:
  "smoothArray (dilate Forward 2 (erode Forward 2 [1, 5, 2])) 2 = [1, 1, 1]"
  "smoothArray (dilate Forward 2 (erode Forward 2 [1, 1, 1])) 2 = [1, 1, 1]"
proof -
  have e1: "erode Forward 2 [1, 5, 2] = [1, 1, 1]"
    by (simp add: erode_def windowExtremum_def winLo_def winHi_def Let_def upt_rec nth_Cons')
  have e2: "erode Forward 2 [1, 1, 1] = [1, 1, 1]"
    by (simp add: erode_def windowExtremum_def winLo_def winHi_def Let_def upt_rec nth_Cons')
  have d: "dilate Forward 2 [1, 1, 1] = [1, 1, 1]"
    by (simp add: dilate_def windowExtremum_def winLo_def winHi_def Let_def upt_rec nth_Cons')
  have s: "smoothArray [1, 1, 1] 2 = [1, 1, 1]"
    by (simp add: smoothArray_def winLo_def winHi_def Let_def upt_rec nth_Cons')
  show "smoothArray (dilate Forward 2 (erode Forward 2 [1, 5, 2])) 2 = [1, 1, 1]"
    by (simp only: e1 d s)
  show "smoothArray (dilate Forward 2 (erode Forward 2 [1, 1, 1])) 2 = [1, 1, 1]"
    by (simp only: e2 d s)
qed

lemma rubberbandLoop_numeral:
  "rubberbandLoop (numeral k) dir halfWin envelope =
     rubberbandLoop (pred_numeral k) dir halfWin
       (smoothArray (dilate dir halfWin (erode dir halfWin envelope)) halfWin)"
  by (simp add: numeral_eq_Suc)

lemma rubberband_loop_example:
  "rubberbandLoop 40 Forward 2 [1, 5, 2] = [1, 1, 1]"
  by (simp add: rubberbandLoop_numeral rubberband_step_forward_example)


theorem rubberband_never_crosses_witness:
  "rubberbandBaseline [plainPoint 0 1, plainPoint (1 / 10) 5, plainPoint (2 / 10) 2] Forward
       createDefaultRubberbandConfig
     = [plainPoint 0 1, plainPoint (1 / 10) 1, plainPoint (2 / 10) 1]
   \<and> current (rubberbandBaseline [plainPoint 0 1, plainPoint (1 / 10) 5, plainPoint (2 / 10) 2]
                 Forward createDefaultRubberbandConfig ! 1) \<le> 5
   \<and> current (rubberbandBaseline [plainPoint 0 1, plainPoint (1 / 10) 5, plainPoint (2 / 10) 2]
                 Reverse createDefaultRubberbandConfig ! 1) \<ge> 5"
proof -
  let ?d = "[plainPoint 0 1, plainPoint (1 / 10) 5, plainPoint (2 / 10) 2]"
  let ?c = "createDefaultRubberbandConfig"
  have hw: "nat (max 2 (min \<lfloor>real (3::nat) * 0.05\<rfloor> \<lfloor>(80::real) / 2\<rfloor>)) = 2" by simp
  have u: "[0..<3] = [0, 1, 2]" by (simp add: upt_rec)
  have ev: "rubberbandBaseline ?d Forward ?c
              = [plainPoint 0 1, plainPoint (1 / 10) 1, plainPoint (2 / 10) 1]"
    unfolding rubberbandBaseline_def Let_def createDefaultRubberbandConfig_def
    by (simp add: hw rubberband_loop_example u del: rubberbandLoop.simps)
  have f: "current (rubberbandBaseline ?d Forward ?c ! 1) \<le> current (?d ! 1)"
    using rubberband_never_crosses [of ?d Forward ?c, THEN conjunct2, rule_format, of 1] by simp
  have r: "current (rubberbandBaseline ?d Reverse ?c ! 1) \<ge> current (?d ! 1)"
    using rubberband_never_crosses [of ?d Reverse ?c, THEN conjunct2, rule_format, of 1] by simp
  show ?thesis using ev f r by simp
qed


subsection \<open>The bands assembled by the ASLS solver\<close>

lemma sum_indicator:
  "(\<Sum>k<(m::nat). if i = k + a \<and> j = k + b then (c::real) else 0)
     = (if a \<le> i \<and> i - a < m \<and> j + a = i + b then c else 0)"
proof -
  have "(\<Sum>k<m. if i = k + a \<and> j = k + b then c else 0)
          = (\<Sum>k\<in>{..<m}. if k = i - a then (if a \<le> i \<and> j + a = i + b then c else 0) else 0)"
  proof (rule sum.cong)
    fix k assume "k \<in> {..<m}"
    show "(if i = k + a \<and> j = k + b then c else 0)
            = (if k = i - a then (if a \<le> i \<and> j + a = i + b then c else 0) else 0)"
    proof (cases "i = k + a \<and> j = k + b")
      case True
      then have "k = i - a" "a \<le> i" "j + a = i + b" by auto
      with True show ?thesis by simp
    next
      case False
      then have "\<not> (k = i - a \<and> a \<le> i \<and> j + a = i + b)" by auto
      with False show ?thesis by auto
    qed
  qed simp
  also have "\<dots> = (if i - a < m then (if a \<le> i \<and> j + a = i + b then c else 0) else 0)"
    by (simp add: sum.delta)
  finally show ?thesis by auto
qed

lemma secondDifference_prod:
  "secondDifference k i * secondDifference k j =
     (if i = k + 0 \<and> j = k + 0 then 1 else 0) + (if i = k + 0 \<and> j = k + 1 then -2 else 0)
   + (if i = k + 0 \<and> j = k + 2 then 1 else 0)
   + (if i = k + 1 \<and> j = k + 0 then -2 else 0) + (if i = k + 1 \<and> j = k + 1 then 4 else 0)
   + (if i = k + 1 \<and> j = k + 2 then -2 else 0)
   + (if i = k + 2 \<and> j = k + 0 then 1 else 0) + (if i = k + 2 \<and> j = k + 1 then -2 else 0)
   + (if i = k + 2 \<and> j = k + 2 then 1 else 0)"
  by (auto simp: secondDifference_def)

lemma penaltyEntry_closed:
  "penaltyEntry n i j =
     (if 0 \<le> i \<and> i - 0 < n - 2 \<and> j + 0 = i + 0 then 1 else 0)
   + (if 0 \<le> i \<and> i - 0 < n - 2 \<and> j + 0 = i + 1 then -2 else 0)
   + (if 0 \<le> i \<and> i - 0 < n - 2 \<and> j + 0 = i + 2 then 1 else 0)
   + (if 1 \<le> i \<and> i - 1 < n - 2 \<and> j + 1 = i + 0 then -2 else 0)
   + (if 1 \<le> i \<and> i - 1 < n - 2 \<and> j + 1 = i + 1 then 4 else 0)
   + (if 1 \<le> i \<and> i - 1 < n - 2 \<and> j + 1 = i + 2 then -2 else 0)
   + (if 2 \<le> i \<and> i - 2 < n - 2 \<and> j + 2 = i + 0 then 1 else 0)
   + (if 2 \<le> i \<and> i - 2 < n - 2 \<and> j + 2 = i + 1 then -2 else 0)
   + (if 2 \<le> i \<and> i - 2 < n - 2 \<and> j + 2 = i + 2 then 1 else 0)"
  unfolding penaltyEntry_def secondDifference_prod sum.distrib sum_indicator ..



lemma diag_pattern_nth:
  assumes "5 \<le> n" "i < n"
  shows "([1, 5] @ replicate (n - 4) 6 @ [5, 1 :: real]) ! i
           = (if i = 0 \<or> i = n - 1 then 1 else if i = 1 \<or> i = n - 2 then 5 else 6)"
proof -
  consider "i = 0" | "i = 1" | "2 \<le> i \<and> i < n - 2" | "i = n - 2" | "i = n - 1"
    using assms by linarith
  then show ?thesis
  proof cases
    case 1 then show ?thesis by simp
  next
    case 2
    have "1 \<noteq> n - 1" using assms by arith
    then show ?thesis using 2 by simp
  next
    case 3
    then obtain k where e: "i = 2 + k" by (auto simp: le_iff_add)
    have k: "k < n - 4" using 3 e by arith
    have ne: "i \<noteq> 0" "i \<noteq> n - 1" "i \<noteq> 1" "i \<noteq> n - 2" using 3 assms by arith+
    have "([1, 5] @ replicate (n - 4) 6 @ [5, 1 :: real]) ! (2 + k) = 6"
      using k by (simp add: nth_append)
    then show ?thesis using ne unfolding e by simp
  next
    case 4
    then have e: "i = 2 + (n - 4)" using assms by arith
    have ne: "i \<noteq> 0" "i \<noteq> n - 1" "i \<noteq> 1" using 4 assms by arith+
    have "([1, 5] @ replicate (n - 4) 6 @ [5, 1 :: real]) ! (2 + (n - 4)) = 5"
      by (simp add: nth_append)
    then have "([1, 5] @ replicate (n - 4) 6 @ [5, 1 :: real]) ! i = 5" by (simp only: e)
    then show ?thesis using ne 4 by simp
  next
    case 5
    then have e: "i = 2 + (n - 4 + 1)" using assms by arith
    have ne: "i \<noteq> 0" using 5 assms by arith
    have "([1, 5] @ replicate (n - 4) 6 @ [5, 1 :: real]) ! (2 + (n - 4 + 1)) = 1"
      by (simp add: nth_append)
    then have "([1, 5] @ replicate (n - 4) 6 @ [5, 1 :: real]) ! i = 1" by (simp only: e)
    then show ?thesis using ne 5 by simp
  qed
qed

lemma sub1_pattern_nth:
  assumes "5 \<le> n" "i < n - 1"
  shows "([-2] @ replicate (n - 3) (-4) @ [-2 :: real]) ! i
           = (if i = 0 \<or> i = n - 2 then -2 else -4)"
proof -
  consider "i = 0" | "1 \<le> i \<and> i < n - 2" | "i = n - 2"
    using assms by linarith
  then show ?thesis
  proof cases
    case 1 then show ?thesis by simp
  next
    case 2
    then obtain k where e: "i = 1 + k" by (auto simp: le_iff_add)
    have k: "k < n - 3" using 2 e by arith
    have ne: "i \<noteq> 0" "i \<noteq> n - 2" using 2 assms by arith+
    have "([-2] @ replicate (n - 3) (-4) @ [-2 :: real]) ! (1 + k) = -4"
      using k by (simp add: nth_append)
    then show ?thesis using ne unfolding e by simp
  next
    case 3
    then have e: "i = 1 + (n - 3)" using assms by arith
    have "([-2] @ replicate (n - 3) (-4) @ [-2 :: real]) ! (1 + (n - 3)) = -2"
      by (simp add: nth_append)
    then have "([-2] @ replicate (n - 3) (-4) @ [-2 :: real]) ! i = -2" by (simp only: e)
    then show ?thesis using 3 by simp
  qed
qed

lemma assembleBands_lists:
  assumes "5 \<le> n"
  shows "assembleBands w lam n =
           (map (\<lambda>i. w ! i + lam * ([1, 5] @ replicate (n - 4) 6 @ [5, 1]) ! i) [0..<n],
            map (\<lambda>v. lam * v) ([-2] @ replicate (n - 3) (-4) @ [-2]),
            map (\<lambda>v. lam * v) (replicate (n - 2) 1))"
proof -
  have a: "map (\<lambda>i. w ! i + lam * (if i = 0 \<or> i = n - 1 then 1 else if i = 1 \<or> i = n - 2 then 5 else 6))
               [0..<n]
           = map (\<lambda>i. w ! i + lam * ([1, 5] @ replicate (n - 4) 6 @ [5, 1]) ! i) [0..<n]"
  proof (rule map_cong[OF refl])
    fix i assume "i \<in> set [0..<n]"
    then have i: "i < n" by simp
    show "w ! i + lam * (if i = 0 \<or> i = n - 1 then 1 else if i = 1 \<or> i = n - 2 then 5 else 6)
            = w ! i + lam * ([1, 5] @ replicate (n - 4) 6 @ [5, 1]) ! i"
      unfolding diag_pattern_nth[OF assms i] ..
  qed
  have e: "map (\<lambda>i. if i = 0 \<or> i = n - 2 then lam * (-2) else lam * (-4)) [0..<n - 1]
           = map (\<lambda>v. lam * v) ([-2] @ replicate (n - 3) (-4) @ [-2])"
  proof (rule nth_equalityI)
    show "length (map (\<lambda>i. if i = 0 \<or> i = n - 2 then lam * (-2) else lam * (-4)) [0..<n - 1])
            = length (map (\<lambda>v. lam * v) ([-2] @ replicate (n - 3) (-4) @ [-2]))"
      using assms by simp
  next
    fix i assume "i < length (map (\<lambda>i. if i = 0 \<or> i = n - 2 then lam * (-2) else lam * (-4)) [0..<n - 1])"
    then have i: "i < n - 1" by simp
    then have l: "i < length ([-2] @ replicate (n - 3) (-4) @ [-2 :: real])" using assms by simp
    have "map (\<lambda>v. lam * v) ([-2] @ replicate (n - 3) (-4) @ [-2]) ! i
            = lam * (if i = 0 \<or> i = n - 2 then -2 else -4)"
      by (simp only: nth_map[OF l] sub1_pattern_nth[OF assms i])
    then show "map (\<lambda>i. if i = 0 \<or> i = n - 2 then lam * (-2) else lam * (-4)) [0..<n - 1] ! i
            = map (\<lambda>v. lam * v) ([-2] @ replicate (n - 3) (-4) @ [-2]) ! i"
      using i by simp
  qed
  have f: "map (\<lambda>i. lam) [0..<n - 2] = map (\<lambda>v. lam * v) (replicate (n - 2) 1)"
    by (simp add: map_replicate_const)
  show ?thesis unfolding assembleBands_def Let_def by (simp only: a e f)
qed

text \<open>
  Claim C3. For every weight vector \<open>w\<close> of length \<open>n \<ge> 5\<close> and every penalty \<open>\<lambda>\<close> the
  bands assembled by the solver are: main diagonal \<open>w\<^sub>i + \<lambda> \<cdot> {1, 5, 6, ..., 6, 5, 1}\<close>,
  first off-diagonal \<open>\<lambda> \<cdot> {-2, -4, ..., -4, -2}\<close>, second off-diagonal \<open>\<lambda> \<cdot> {1, ..., 1}\<close>;
  and the symmetric matrix they stand for is \<open>diag(w) + \<lambda> D\<^sub>2\<^sup>T D\<^sub>2\<close>, entry by entry.
\<close>

theorem asls_bands_are_penalty_matrix:
  assumes "5 \<le> n" and "length w = n"
  shows "assembleBands w lam n =
           (map (\<lambda>i. w ! i + lam * ([1, 5] @ replicate (n - 4) 6 @ [5, 1]) ! i) [0..<n],
            map (\<lambda>v. lam * v) ([-2] @ replicate (n - 3) (-4) @ [-2]),
            map (\<lambda>v. lam * v) (replicate (n - 2) 1))
         \<and> (\<forall>i<n. \<forall>j<n. bandedEntry (assembleBands w lam n) i j
               = (if i = j then w ! i else 0) + lam * penaltyEntry n i j)"
proof -
  have "bandedEntry (assembleBands w lam n) i j
               = (if i = j then w ! i else 0) + lam * penaltyEntry n i j" if "i < n" "j < n" for i j
  proof -
    consider "i = j" | "i = j + 1" | "j = i + 1" | "i = j + 2" | "j = i + 2" | "i + 2 < j" | "j + 2 < i"
      by linarith
    then show ?thesis
    proof cases
      case 1
      then show ?thesis using that assms(1)
        by (auto simp: bandedEntry_def assembleBands_def Let_def penaltyEntry_closed algebra_simps; arith)
    next
      case 2
      then show ?thesis using that assms(1)
        by (auto simp: bandedEntry_def assembleBands_def Let_def penaltyEntry_closed algebra_simps; arith)
    next
      case 3
      then show ?thesis using that assms(1)
        by (auto simp: bandedEntry_def assembleBands_def Let_def penaltyEntry_closed algebra_simps; arith)
    next
      case 4
      then show ?thesis using that assms(1)
        by (auto simp: bandedEntry_def assembleBands_def Let_def penaltyEntry_closed algebra_simps; arith)
    next
      case 5
      then show ?thesis using that assms(1)
        by (auto simp: bandedEntry_def assembleBands_def Let_def penaltyEntry_closed algebra_simps; arith)
    next
      case 6
      then show ?thesis using that assms(1)
        by (auto simp: bandedEntry_def assembleBands_def Let_def penaltyEntry_closed algebra_simps; arith)
    next
      case 7
      then show ?thesis using that assms(1)
        by (auto simp: bandedEntry_def assembleBands_def Let_def penaltyEntry_closed algebra_simps; arith)
    qed
  qed
  then show ?thesis using assembleBands_lists[OF assms(1)] by simp
qed


theorem asls_bands_are_penalty_matrix_witness:
  "(5::nat) \<le> 5 \<and> length [1, 1, 1, 1, 1 :: real] = 5
   \<and> assembleBands [1, 1, 1, 1, 1] 2 5 = ([3, 11, 13, 11, 3], [-4, -8, -8, -4], [2, 2, 2])
   \<and> bandedEntry (assembleBands [1, 1, 1, 1, 1] 2 5) 1 2 = 0 + 2 * penaltyEntry 5 1 2
   \<and> penaltyEntry 5 1 2 = -4"
proof -
  have h: "(5::nat) \<le> 5" "length [1, 1, 1, 1, 1 :: real] = 5" by simp_all
  have u: "[0..<5] = [0, 1, 2, 3, 4]" by (simp add: upt_rec)
  have ev: "assembleBands [1, 1, 1, 1, 1] 2 5 = ([3, 11, 13, 11, 3], [-4, -8, -8, -4], [2, 2, 2])"
    by (simp add: assembleBands_def Let_def u upt_rec)
  have "bandedEntry (assembleBands [1, 1, 1, 1, 1] 2 5) 1 2
          = (if (1::nat) = 2 then [1, 1, 1, 1, 1] ! 1 else 0) + 2 * penaltyEntry 5 1 2"
    using asls_bands_are_penalty_matrix [OF h, of 2, THEN conjunct2, rule_format, of 1 2] by simp
  then have b: "bandedEntry (assembleBands [1, 1, 1, 1, 1] 2 5) 1 2 = 0 + 2 * penaltyEntry 5 1 2"
    by simp
  have p: "penaltyEntry 5 1 2 = -4" by (simp add: penaltyEntry_closed)
  show ?thesis using h ev b p by simp
qed

subsection \<open>Merging peaks twice\<close>

lemma tooClose_sym: "tooClose ms p q = tooClose ms q p"
  by (auto simp: tooClose_def abs_minus_commute)

lemma mergeInner_fold_dominant:
  assumes "\<forall>q\<in>set xs. index q \<notin> used \<and> index q \<noteq> index p \<longrightarrow> prominence q \<le> prominence p"
  shows "fold (mergeInner ms p) xs (p, used) = (p, used \<union> neighbours ms xs p)"
  using assms
proof (induction xs arbitrary: used)
  case Nil
  then show ?case by (simp add: neighbours_def)
next
  case (Cons q xs)
  show ?case
  proof (cases "index q = index p \<or> index q \<in> used")
    case True
    then have step: "mergeInner ms p q (p, used) = (p, used)" by (simp add: mergeInner_def)
    have "fold (mergeInner ms p) xs (p, used) = (p, used \<union> neighbours ms xs p)"
      using Cons.IH[of used] Cons.prems by simp
    moreover have "used \<union> neighbours ms (q # xs) p = used \<union> neighbours ms xs p"
      using True by (auto simp: neighbours_def tooClose_def)
    ultimately show ?thesis using step by simp
  next
    case False
    then have le: "prominence q \<le> prominence p" using Cons.prems by simp
    show ?thesis
    proof (cases "\<bar>real (index q) - real (index p)\<bar> < ms")
      case True
      then have step: "mergeInner ms p q (p, used) = (p, insert (index q) used)"
        using False le by (simp add: mergeInner_def Let_def)
      have "fold (mergeInner ms p) xs (p, insert (index q) used)
              = (p, insert (index q) used \<union> neighbours ms xs p)"
        using Cons.IH[of "insert (index q) used"] Cons.prems by simp
      moreover have "used \<union> neighbours ms (q # xs) p = insert (index q) used \<union> neighbours ms xs p"
        using True False by (auto simp: neighbours_def tooClose_def)
      ultimately show ?thesis using step by simp
    next
      case far: False
      then have step: "mergeInner ms p q (p, used) = (p, used)"
        using False by (simp add: mergeInner_def)
      have "fold (mergeInner ms p) xs (p, used) = (p, used \<union> neighbours ms xs p)"
        using Cons.IH[of used] Cons.prems by simp
      moreover have "used \<union> neighbours ms (q # xs) p = used \<union> neighbours ms xs p"
        using far by (auto simp: neighbours_def tooClose_def)
      ultimately show ?thesis using step by simp
    qed
  qed
qed

lemma mergeInner_fold_isolated:
  assumes "\<forall>q\<in>set xs. index q \<notin> used \<longrightarrow> \<not> tooClose ms p q"
  shows "fold (mergeInner ms p) xs (b, used) = (b, used)"
  using assms
  by (induction xs) (auto simp: mergeInner_def tooClose_def)

lemma mergeInvI:
  assumes "index ` set pre \<subseteq> used" "index ` set res \<subseteq> used" "set res \<subseteq> set ps"
    "distinct (map index res)" "\<forall>a\<in>set res. neighbours ms ps a \<subseteq> used"
    "\<forall>a\<in>set res. \<forall>b\<in>set res. \<not> tooClose ms a b"
  shows "mergeInv ms ps pre (res, used)"
  using assms unfolding mergeInv_def by simp

lemma mergeInvD:
  assumes "mergeInv ms ps pre (res, used)"
  shows "index ` set pre \<subseteq> used" "index ` set res \<subseteq> used" "set res \<subseteq> set ps"
    "distinct (map index res)" "\<forall>a\<in>set res. neighbours ms ps a \<subseteq> used"
    "\<forall>a\<in>set res. \<forall>b\<in>set res. \<not> tooClose ms a b"
  using assms unfolding mergeInv_def by simp_all

lemma mergeOuter_preserves:
  assumes srt: "sorted_wrt (\<lambda>a b. prominence a \<ge> prominence b) ps"
    and ps: "ps = pre @ p # rest"
    and inv: "mergeInv ms ps pre st"
  shows "mergeInv ms ps (pre @ [p]) (mergeOuter ms ps p st)"
proof -
  obtain res used where st: "st = (res, used)" by (cases st)
  note I = mergeInvD[OF inv[unfolded st]]
  show ?thesis
  proof (cases "index p \<in> used")
    case True
    have "mergeInv ms ps (pre @ [p]) (res, used)"
      using I True by (intro mergeInvI) simp_all
    then show ?thesis using True by (simp add: st mergeOuter_def)
  next
    case False
    have dom: "\<forall>q\<in>set ps. index q \<notin> used \<and> index q \<noteq> index p \<longrightarrow> prominence q \<le> prominence p"
    proof (intro ballI impI)
      fix q assume q: "q \<in> set ps" and nu: "index q \<notin> used \<and> index q \<noteq> index p"
      then have "q \<notin> set pre" using I(1) by auto
      moreover have "q \<noteq> p" using nu by auto
      ultimately have "q \<in> set rest" using q ps by auto
      moreover have "\<forall>r\<in>set rest. prominence p \<ge> prominence r"
        using srt unfolding ps by (simp add: sorted_wrt_append)
      ultimately show "prominence q \<le> prominence p" by simp
    qed
    have step: "mergeOuter ms ps p st = (res @ [p], insert (index p) (used \<union> neighbours ms ps p))"
      using False by (simp add: st mergeOuter_def mergeInner_fold_dominant[OF dom])
    have pin: "p \<in> set ps" using ps by simp
    have far: "\<not> tooClose ms a p" if a: "a \<in> set res" for a
    proof
      assume "tooClose ms a p"
      then have "index p \<in> neighbours ms ps a" using pin by (auto simp: neighbours_def)
      then show False using I(5) a False by auto
    qed
    have far': "\<not> tooClose ms p a" if a: "a \<in> set res" for a
      using far[OF a] tooClose_sym[of ms p a] by simp
    have self: "\<not> tooClose ms p p" by (simp add: tooClose_def)
    let ?U = "insert (index p) (used \<union> neighbours ms ps p)"
    have "mergeInv ms ps (pre @ [p]) (res @ [p], ?U)"
    proof (intro mergeInvI)
      show "index ` set (pre @ [p]) \<subseteq> ?U" using I(1) by auto
      show "index ` set (res @ [p]) \<subseteq> ?U" using I(2) by auto
      show "set (res @ [p]) \<subseteq> set ps" using I(3) pin by auto
      show "distinct (map index (res @ [p]))" using I(2,4) False by auto
      show "\<forall>a\<in>set (res @ [p]). neighbours ms ps a \<subseteq> ?U" using I(5) by auto
      show "\<forall>a\<in>set (res @ [p]). \<forall>b\<in>set (res @ [p]). \<not> tooClose ms a b"
        using I(6) far far' self by auto
    qed
    then show ?thesis by (simp add: step)
  qed
qed

lemma mergeOuter_fold_inv:
  assumes "sorted_wrt (\<lambda>a b. prominence a \<ge> prominence b) ps"
    and "ps = pre @ rest"
    and "mergeInv ms ps pre st"
  shows "mergeInv ms ps ps (fold (mergeOuter ms ps) rest st)"
  using assms(2,3)
proof (induction rest arbitrary: pre st)
  case Nil
  then show ?case by simp
next
  case (Cons p rest)
  have "mergeInv ms ps (pre @ [p]) (mergeOuter ms ps p st)"
    using mergeOuter_preserves[OF assms(1) Cons.prems(1) Cons.prems(2)] .
  moreover have "ps = (pre @ [p]) @ rest" using Cons.prems(1) by simp
  ultimately show ?case using Cons.IH by simp
qed

lemma mergeOuter_fold_separated:
  assumes "\<forall>a\<in>set ps. \<forall>b\<in>set ps. \<not> tooClose ms a b"
    and "set rest \<subseteq> set ps"
    and "distinct (map index rest)"
    and "index ` set rest \<inter> used = {}"
  shows "fold (mergeOuter ms ps) rest (res, used) = (res @ rest, used \<union> index ` set rest)"
  using assms(2,3,4)
proof (induction rest arbitrary: res used)
  case Nil
  then show ?case by simp
next
  case (Cons p rest)
  have p: "p \<in> set ps" "index p \<notin> used" using Cons.prems by auto
  have "fold (mergeInner ms p) ps (p, used) = (p, used)"
    using assms(1) p(1) by (intro mergeInner_fold_isolated) simp
  then have step: "mergeOuter ms ps p (res, used) = (res @ [p], insert (index p) used)"
    using p(2) by (simp add: mergeOuter_def)
  have "fold (mergeOuter ms ps) rest (res @ [p], insert (index p) used)
          = ((res @ [p]) @ rest, insert (index p) used \<union> index ` set rest)"
    using Cons.prems by (intro Cons.IH) auto
  then show ?case using step by simp
qed

text \<open>
  Claim C4. Peak merging is idempotent on candidates sorted by prominence (descending, as
  \<open>findCVPeaks\<close> sorts them): for every minimum separation, merging the merged list
  returns it unchanged.
\<close>

theorem mergePeaks_idempotent:
  assumes "sorted_wrt (\<lambda>a b. prominence a \<ge> prominence b) ps"
  shows "mergePeaks (mergePeaks ps ms) ms = mergePeaks ps ms"
proof (cases "length ps \<le> 1")
  case True
  then show ?thesis by (simp add: mergePeaks_def)
next
  case False
  obtain res used where f: "fold (mergeOuter ms ps) ps ([], {}) = (res, used)"
    by (cases "fold (mergeOuter ms ps) ps ([], {})")
  have m: "mergePeaks ps ms = res" using False f by (simp add: mergePeaks_def)
  have "mergeInv ms ps [] ([], {})" by (simp add: mergeInv_def)
  then have "mergeInv ms ps ps (fold (mergeOuter ms ps) ps ([], {}))"
    using mergeOuter_fold_inv[OF assms, of "[]" ps ms "([], {})"] by simp
  then have d: "distinct (map index res)" and s: "\<forall>a\<in>set res. \<forall>b\<in>set res. \<not> tooClose ms a b"
    unfolding f mergeInv_def by auto
  have "fold (mergeOuter ms res) res ([], {}) = ([] @ res, {} \<union> index ` set res)"
    using s d by (intro mergeOuter_fold_separated) auto
  then have "mergePeaks res ms = res" by (simp add: mergePeaks_def)
  then show ?thesis by (simp add: m)
qed


theorem mergePeaks_idempotent_witness:
  "sorted_wrt (\<lambda>a b. prominence a \<ge> prominence b)
     [\<lparr>index = 10, magnitude = 5, prominence = 5\<rparr>,
      \<lparr>index = 12, magnitude = 4, prominence = 3\<rparr>,
      \<lparr>index = 30, magnitude = 2, prominence = 2\<rparr>]
   \<and> mergePeaks [\<lparr>index = 10, magnitude = 5, prominence = 5\<rparr>,
                  \<lparr>index = 12, magnitude = 4, prominence = 3\<rparr>,
                  \<lparr>index = 30, magnitude = 2, prominence = 2\<rparr>] 5
       = [\<lparr>index = 10, magnitude = 5, prominence = 5\<rparr>, \<lparr>index = 30, magnitude = 2, prominence = 2\<rparr>]
   \<and> mergePeaks [\<lparr>index = 10, magnitude = 5, prominence = 5\<rparr>,
                  \<lparr>index = 30, magnitude = 2, prominence = 2\<rparr>] 5
       = [\<lparr>index = 10, magnitude = 5, prominence = 5\<rparr>, \<lparr>index = 30, magnitude = 2, prominence = 2\<rparr>]"
proof -
  let ?ps = "[\<lparr>index = 10, magnitude = 5, prominence = 5\<rparr>,
              \<lparr>index = 12, magnitude = 4, prominence = 3\<rparr>,
              \<lparr>index = 30, magnitude = 2, prominence = (2::real)\<rparr>]"
  have s: "sorted_wrt (\<lambda>a b. prominence a \<ge> prominence b) ?ps" by simp
  have ev: "mergePeaks ?ps 5
              = [\<lparr>index = 10, magnitude = 5, prominence = 5\<rparr>, \<lparr>index = 30, magnitude = 2, prominence = 2\<rparr>]"
    by (simp add: mergePeaks_def mergeOuter_def mergeInner_def Let_def)
  show ?thesis using s ev mergePeaks_idempotent [OF s, of 5] by simp
qed


subsection \<open>Smoothing drops the time values\<close>

lemma kernel_lookup_supported:
  assumes "ws \<in> {5, 9, 11, 15, 21}"
  shows "\<exists>k. getNormalizedSmoothingKernel ws = Inr k \<and> k \<noteq> []"
  using kernel_supported[OF assms] assms by auto

lemma applySmoothing_supported:
  assumes "scanData \<noteq> []" and "smoothingWindow config \<in> {5, 9, 11, 15, 21}"
  shows "\<exists>r. applySmoothing scanData config = Inr r
           \<and> smoothedData r = map (\<lambda>i. plainPoint (potential (scanData ! i)) (smoothedCurrent r ! i))
                                 [0..<length scanData]
           \<and> length (smoothedCurrent r) = length scanData"
proof -
  obtain k where k: "getNormalizedSmoothingKernel (smoothingWindow config) = Inr k" "k \<noteq> []"
    using kernel_lookup_supported[OF assms(2)] by blast
  have c: "convolve (map current scanData) k Mirror
             = Inr \<lparr>result = map (convolveAt (map current scanData) k Mirror) [0..<length scanData],
                   conv_edgeHandling = Mirror,
                   conv_warnings = (if length k > length scanData then [KernelLargerThanData] else [])\<rparr>"
    using assms(1) k(2) by (simp add: convolve_def Let_def)
  show ?thesis
    using assms(1) by (simp add: applySmoothing_def Let_def k(1) c cong: map_cong)
qed


lemma applySmoothing_data:
  assumes "scanData \<noteq> []" and "getNormalizedSmoothingKernel (smoothingWindow config) = Inr k"
    and "k \<noteq> []"
  shows "\<exists>r. applySmoothing scanData config = Inr r
           \<and> smoothedData r = map (\<lambda>i. plainPoint (potential (scanData ! i))
                                          (convolveAt (map current scanData) k Mirror i))
                                 [0..<length scanData]"
proof -
  have c: "convolve (map current scanData) k Mirror
             = Inr \<lparr>result = map (convolveAt (map current scanData) k Mirror) [0..<length scanData],
                   conv_edgeHandling = Mirror,
                   conv_warnings = (if length k > length scanData then [KernelLargerThanData] else [])\<rparr>"
    using assms(1,3) by (simp add: convolve_def Let_def)
  show ?thesis
    using assms(1) by (simp add: applySmoothing_def Let_def assms(2) c cong: map_cong)
qed

text \<open>
  Claim C5. For a non-empty input and a supported window (which is when the \<open>try\<close> block
  of the smoothing stage completes) the smoothing stage succeeds and its output samples
  carry only potential and current (each is the literal \<open>{ potential, current }\<close>):
  time and applied potential are absent. So when smoothing is enabled, the analyzer's
  time-availability check on the smoothed data is false, every peak's charge unit is
  \<open>'V\<cdot>A'\<close>, and its area is integrated with the potentials of the samples as
  abscissae, whatever time values the raw samples carried.
\<close>

theorem smoothing_drops_time:
  assumes "scanData \<noteq> []" and "smoothingWindow config \<in> {5, 9, 11, 15, 21}"
  shows "\<exists>r. applySmoothing scanData config = Inr r
           \<and> length (smoothedData r) = length scanData
           \<and> (\<forall>p\<in>set (smoothedData r).
                  p = plainPoint (potential p) (current p)
                \<and> time p = None \<and> appliedPotential p = None)
           \<and> (smoothingEnabled config \<longrightarrow>
                smoothed (analyzeCVScan scanData config dir) = smoothedData r
              \<and> \<not> hasTimeData (smoothed (analyzeCVScan scanData config dir))
              \<and> (\<forall>pk\<in>set (peaks (analyzeCVScan scanData config dir)).
                    chargeUnit pk = VoltAmpere
                  \<and> peakArea pk = integratePeakArea (smoothedData r)
                                     (baseline (analyzeCVScan scanData config dir))
                                     (startIndex pk) (endIndex pk) False
                  \<and> map x (buildIntegrationPoints (smoothedData r)
                              (baseline (analyzeCVScan scanData config dir))
                              (startIndex pk) (endIndex pk) False)
                      = map (\<lambda>i. potential (scanData ! i))
                          [startIndex pk..<min (endIndex pk + 1) (length scanData)]))"
proof -
  obtain r where r: "applySmoothing scanData config = Inr r"
      "smoothedData r = map (\<lambda>i. plainPoint (potential (scanData ! i)) (smoothedCurrent r ! i))
                          [0..<length scanData]"
    using applySmoothing_supported[OF assms] by blast
  have len: "length (smoothedData r) = length scanData" by (simp add: r(2))
  have nt: "\<forall>p\<in>set (smoothedData r).
              p = plainPoint (potential p) (current p)
            \<and> time p = None \<and> appliedPotential p = None"
    by (auto simp: r(2))
  then have nt': "\<forall>p\<in>set (smoothedData r). time p = None" by simp
  have pot: "\<And>i. i < length scanData \<Longrightarrow> potential (smoothedData r ! i) = potential (scanData ! i)"
    by (simp add: r(2))
  have en: "smoothingEnabled config \<Longrightarrow>
                smoothed (analyzeCVScan scanData config dir) = smoothedData r
              \<and> \<not> hasTimeData (smoothed (analyzeCVScan scanData config dir))
              \<and> (\<forall>pk\<in>set (peaks (analyzeCVScan scanData config dir)).
                    chargeUnit pk = VoltAmpere
                  \<and> peakArea pk = integratePeakArea (smoothedData r)
                                     (baseline (analyzeCVScan scanData config dir))
                                     (startIndex pk) (endIndex pk) False
                  \<and> map x (buildIntegrationPoints (smoothedData r)
                              (baseline (analyzeCVScan scanData config dir))
                              (startIndex pk) (endIndex pk) False)
                      = map (\<lambda>i. potential (scanData ! i))
                          [startIndex pk..<min (endIndex pk + 1) (length scanData)])"
  proof -
    assume e: "smoothingEnabled config"
    let ?res = "analyzeCVScan scanData config dir"
    have sm: "smoothed ?res = smoothedData r"
      using e by (simp add: analyzeCVScan_smoothed[OF assms(1)] r(1))
    have ht: "\<not> hasTimeData (smoothed ?res)"
      unfolding sm by (rule hasTimeData_no_time[OF nt'])
    have pk: "chargeUnit pk = VoltAmpere
                  \<and> peakArea pk = integratePeakArea (smoothedData r) (baseline ?res)
                                     (startIndex pk) (endIndex pk) False
                  \<and> map x (buildIntegrationPoints (smoothedData r) (baseline ?res)
                              (startIndex pk) (endIndex pk) False)
                      = map (\<lambda>i. potential (scanData ! i))
                          [startIndex pk..<min (endIndex pk + 1) (length scanData)]"
      if "pk \<in> set (peaks ?res)" for pk
    proof -
      have "pk \<in> set (findCVPeaks (smoothedData r) (baseline ?res)
               (map (\<lambda>i. current (smoothedData r ! i) - baselineCurrentAt (baseline ?res) i)
                    [0..<length (smoothedData r)])
               dir (peakProminenceThreshold config))"
        using that analyzeCVScan_peaks[OF assms(1), of config dir] unfolding sm by simp
      from findCVPeaks_charge[OF this] ht[unfolded sm]
      have a: "chargeUnit pk = VoltAmpere"
        "peakArea pk = integratePeakArea (smoothedData r) (baseline ?res)
                                     (startIndex pk) (endIndex pk) False"
        by simp_all
      have "map x (buildIntegrationPoints (smoothedData r) (baseline ?res)
                              (startIndex pk) (endIndex pk) False)
              = map (\<lambda>i. potential (smoothedData r ! i))
                  [startIndex pk..<min (endIndex pk + 1) (length (smoothedData r))]"
        by (simp add: buildIntegrationPoints_no_time[OF nt'] comp_def)
      also have "\<dots> = map (\<lambda>i. potential (scanData ! i))
                          [startIndex pk..<min (endIndex pk + 1) (length scanData)]"
        unfolding len by (rule map_cong[OF refl]) (simp add: pot)
      finally show ?thesis using a by simp
    qed
    show ?thesis using sm ht pk by blast
  qed
  show ?thesis using r(1) len nt en by blast
qed


text \<open>The pipeline evaluated on \<open>timedScan\<close>, all of whose samples carry a time value.\<close>

lemma timed_smoothing:
  "\<exists>r. applySmoothing timedScan smoothingLinearConfig = Inr r \<and> smoothedData r = timedSmoothed"
proof -
  have k: "getNormalizedSmoothingKernel (smoothingWindow smoothingLinearConfig)
             = Inr [-3/35, 12/35, 17/35, 12/35, -3/35]"
    by (simp add: smoothingLinearConfig_def getNormalizedSmoothingKernel_def SG_KERNEL_REGISTRY_def
        SG_KERNELS_5_def Let_def)
  have ne: "timedScan \<noteq> []" by (simp add: timedScan_def)
  obtain r where r: "applySmoothing timedScan smoothingLinearConfig = Inr r"
    "smoothedData r = map (\<lambda>i. plainPoint (potential (timedScan ! i))
               (convolveAt (map current timedScan) [-3/35, 12/35, 17/35, 12/35, -3/35] Mirror i))
               [0..<length timedScan]"
    using applySmoothing_data[OF ne k] by blast
  have cur: "map current timedScan = [0, 1, 3, 1, 0]" by (simp add: timedScan_def)
  have u: "[0..<length timedScan] = [0, 1, 2, 3, 4]" by (simp add: timedScan_def upt_rec)
  have "map (\<lambda>i. plainPoint (potential (timedScan ! i))
               (convolveAt [0, 1, 3, 1, 0] [-3/35, 12/35, 17/35, 12/35, -3/35] Mirror i))
               [0, 1, 2, 3, 4] = timedSmoothed"
    by (simp add: timedScan_def timedSmoothed_def convolveAt_def convolveStep_def getDataValue_def
        Let_def upt_rec nth_Cons')
  then have "smoothedData r = timedSmoothed" unfolding r(2) cur u .
  then show ?thesis using r(1) by blast
qed

lemma timed_linear: "linearBaseline timedSmoothed (1/10) = Inr timedBaseline"
proof -
  have ac: "nat (max 2 \<lfloor>real (5::nat) * (1/10)\<rfloor>) = 2" by simp
  have ls: "leastSquares [(0, 6/35), (1/10, 47/35), (3/10, 47/35), (4/10, 6/35)] = (0, 53/70)"
    by (simp add: leastSquares_def Let_def)
  have len: "length timedSmoothed = 5" by (simp add: timedSmoothed_def)
  have anchors: "map (\<lambda>i. (potential (timedSmoothed ! i), current (timedSmoothed ! i))) [0..<2]
                 @ map (\<lambda>i. (potential (timedSmoothed ! i), current (timedSmoothed ! i))) [5 - 2..<5]
                 = [(0, 6/35), (1/10, 47/35), (3/10, 47/35), (4/10, 6/35)]"
    by (simp add: timedSmoothed_def upt_rec nth_Cons')
  show ?thesis
    unfolding linearBaseline_def Let_def len ac anchors ls
    by (simp add: timedSmoothed_def timedBaseline_def)
qed

lemma timed_corrected:
  "map (\<lambda>i. current (timedSmoothed ! i) - baselineCurrentAt timedBaseline i) [0..<length timedSmoothed]
     = timedCorrected"
  by (simp add: timedCorrected_def timedSmoothed_def timedBaseline_def baselineCurrentAt_def
      upt_rec nth_Cons')

lemma timed_candidates:
  "peakCandidates timedCorrected True = [\<lparr>index = 2, magnitude = 97/70\<rparr>]"
  by (simp add: timedCorrected_def peakCandidates_def upt_rec nth_Cons')

lemma timed_prominence: "computeProminence timedCorrected 2 True = 69/35"
  by (simp add: timedCorrected_def computeProminence_def Let_def upt_rec nth_Cons')

lemma timed_boundaries: "findPeakBoundaries timedCorrected 2 True = (0, 4)"
  by (simp add: timedCorrected_def findPeakBoundaries_def upt_rec nth_Cons')

lemma timed_interp: "interpolatePeakPotential timedSmoothed timedCorrected 2 = 1/5"
  by (simp add: timedCorrected_def interpolatePeakPotential_def Let_def timedSmoothed_def nth_Cons')

lemma timed_points:
  "buildIntegrationPoints timedSmoothed timedBaseline 0 4 False
     = [\<lparr>x = 0, y = -41/70\<rparr>, \<lparr>x = 1/10, y = 41/70\<rparr>, \<lparr>x = 1/5, y = 97/70\<rparr>,
        \<lparr>x = 3/10, y = 41/70\<rparr>, \<lparr>x = 2/5, y = -41/70\<rparr>]"
  by (simp add: buildIntegrationPoints_def baselineCurrentAt_def timedSmoothed_def timedBaseline_def
      upt_rec nth_Cons' plainPoint_def)

lemma timed_area: "integratePeakArea timedSmoothed timedBaseline 0 4 False = 22 / 105"
  unfolding integratePeakArea_def timed_points Let_def
  by (simp add: simpsons_def simpsonStep_def Let_def upt_rec nth_Cons')

lemma timed_peak:
  "buildPeakResult timedSmoothed timedBaseline timedCorrected True
       \<lparr>index = 2, magnitude = 97/70, prominence = 69/35\<rparr>
     = \<lparr>peakIndex = 2, peakPotential = 1/5, peakCurrent = 15/7, rawCurrent = 15/7, height = 97/70,
        peakArea = 22/105, chargeUnit = VoltAmpere, startIndex = 0, endIndex = 4,
        startPotential = 0, endPotential = 2/5, peakType = Oxidation\<rparr>"
proof -
  have ht: "\<not> hasTimeData timedSmoothed" by (simp add: hasTimeData_def timedSmoothed_def)
  have v: "current (timedSmoothed ! 2) = 15/7" "potential (timedSmoothed ! 0) = 0"
      "potential (timedSmoothed ! 4) = 2/5"
    by (simp_all add: timedSmoothed_def)
  show ?thesis
    unfolding buildPeakResult_def Let_def
    by (simp add: timed_boundaries timed_interp timed_area ht v) (simp add: timedCorrected_def)
qed

lemma timed_find:
  "findCVPeaks timedSmoothed timedBaseline timedCorrected Forward (5/100)
     = [\<lparr>peakIndex = 2, peakPotential = 1/5, peakCurrent = 15/7, rawCurrent = 15/7, height = 97/70,
        peakArea = 22/105, chargeUnit = VoltAmpere, startIndex = 0, endIndex = 4,
        startPotential = 0, endPotential = 2/5, peakType = Oxidation\<rparr>]"
proof -
  have ms: "real_of_int (max 5 \<lfloor>real (5::nat) * 0.02\<rfloor>) = 5" by simp
  have mp: "mergePeaks [\<lparr>index = 2, magnitude = 97/70, prominence = 69/35\<rparr>] 5
              = [\<lparr>index = 2, magnitude = 97/70, prominence = 69/35\<rparr>]"
    by (simp add: mergePeaks_def)
  have len: "length timedCorrected = 5" by (simp add: timedCorrected_def)
  show ?thesis
    unfolding findCVPeaks_def Let_def
    by (simp add: timed_candidates timed_prominence ms mp timed_peak len)
qed

theorem smoothing_drops_time_witness:
  "timedScan \<noteq> [] \<and> smoothingWindow smoothingLinearConfig \<in> {5, 9, 11, 15, 21}
   \<and> smoothingEnabled smoothingLinearConfig
   \<and> map time timedScan = [Some 0, Some 1, Some 2, Some 3, Some 4]
   \<and> smoothed (analyzeCVScan timedScan smoothingLinearConfig Forward) = timedSmoothed
   \<and> map time (smoothed (analyzeCVScan timedScan smoothingLinearConfig Forward))
       = [None, None, None, None, None]
   \<and> peaks (analyzeCVScan timedScan smoothingLinearConfig Forward)
       = [\<lparr>peakIndex = 2, peakPotential = 1/5, peakCurrent = 15/7, rawCurrent = 15/7,
           height = 97/70, peakArea = 22/105, chargeUnit = VoltAmpere, startIndex = 0,
           endIndex = 4, startPotential = 0, endPotential = 2/5, peakType = Oxidation\<rparr>]"
proof -
  let ?res = "analyzeCVScan timedScan smoothingLinearConfig Forward"
  have ne: "timedScan \<noteq> []" by (simp add: timedScan_def)
  have w: "smoothingWindow smoothingLinearConfig \<in> {5, 9, 11, 15, 21}"
    by (simp add: smoothingLinearConfig_def)
  have en: "smoothingEnabled smoothingLinearConfig" by (simp add: smoothingLinearConfig_def)
  obtain r where r: "applySmoothing timedScan smoothingLinearConfig = Inr r"
      "length (smoothedData r) = length timedScan"
      "\<forall>p\<in>set (smoothedData r). time p = None"
      "smoothed ?res = smoothedData r"
    using smoothing_drops_time [OF ne w, of Forward] en by blast
  have sd: "smoothedData r = timedSmoothed" using timed_smoothing r(1) by auto
  have sm: "smoothed ?res = timedSmoothed" using r(4) sd by simp
  have "map time (smoothedData r) = replicate (length (smoothedData r)) None"
    using r(3) by (simp add: map_replicate_const[symmetric] cong: map_cong)
  then have tm: "map time (smoothed ?res) = [None, None, None, None, None]"
    unfolding r(4) r(2) by (simp add: timedScan_def)
  have cb: "computeBaseline timedSmoothed Forward smoothingLinearConfig = Inr timedBaseline"
    by (simp add: computeBaseline_def smoothingLinearConfig_def timed_linear)
  have bl: "baseline ?res = timedBaseline"
    by (simp add: analyzeCVScan_baseline[OF ne] sm cb)
  have th: "peakProminenceThreshold smoothingLinearConfig = 5/100"
    by (simp add: smoothingLinearConfig_def)
  have pk: "peaks ?res = findCVPeaks timedSmoothed timedBaseline timedCorrected Forward (5/100)"
    unfolding analyzeCVScan_peaks[OF ne] sm bl timed_corrected th ..
  have t: "map time timedScan = [Some 0, Some 1, Some 2, Some 3, Some 4]"
    by (simp add: timedScan_def)
  show ?thesis using ne w en t sm tm pk timed_find by simp
qed


subsection \<open>The abscissa of charge integration\<close>

text \<open>
  The pipeline evaluated on \<open>mixedTimeScan\<close> with smoothing switched off, so that the raw
  samples reach the peak analyzer.
\<close>

lemma mixed_candidates:
  "peakCandidates mixedTimeCorrected True = [\<lparr>index = 2, magnitude = 5/2\<rparr>]"
  by (simp add: mixedTimeCorrected_def peakCandidates_def upt_rec nth_Cons')

lemma mixed_prominence:
  "computeProminence mixedTimeCorrected 2 True = 3"
  by (simp add: mixedTimeCorrected_def computeProminence_def Let_def upt_rec nth_Cons')

lemma mixed_boundaries:
  "findPeakBoundaries mixedTimeCorrected 2 True = (0, 4)"
  by (simp add: mixedTimeCorrected_def findPeakBoundaries_def upt_rec nth_Cons')

lemma mixed_interp: "interpolatePeakPotential mixedTimeScan mixedTimeCorrected 2 = 1/5"
  by (simp add: mixedTimeCorrected_def interpolatePeakPotential_def Let_def mixedTimeScan_def nth_Cons')

lemma mixed_points:
  "buildIntegrationPoints mixedTimeScan mixedTimeBaseline 0 4 True
     = [\<lparr>x = 0, y = -1/2\<rparr>, \<lparr>x = 1, y = 1/2\<rparr>, \<lparr>x = 1/5, y = 5/2\<rparr>, \<lparr>x = 3, y = 1/2\<rparr>, \<lparr>x = 4, y = -1/2\<rparr>]"
  by (simp add: buildIntegrationPoints_def baselineCurrentAt_def mixedTimeScan_def mixedTimeBaseline_def upt_rec nth_Cons' plainPoint_def)

lemma mixed_area: "integratePeakArea mixedTimeScan mixedTimeBaseline 0 4 True = 76 / 15"
  unfolding integratePeakArea_def mixed_points Let_def
  by (simp add: simpsons_def simpsonStep_def Let_def upt_rec nth_Cons')

lemma mixed_linear:
  "linearBaseline mixedTimeScan (1/10) = Inr mixedTimeBaseline"
proof -
  have ac: "nat (max 2 \<lfloor>real (5::nat) * (1/10)\<rfloor>) = 2" by simp
  have ls: "leastSquares [(0, 0), (1/10, 1), (3/10, 1), (4/10, 0)] = (0, 1/2)"
    by (simp add: leastSquares_def Let_def)
  have len: "length mixedTimeScan = 5" by (simp add: mixedTimeScan_def)
  have anchors: "map (\<lambda>i. (potential (mixedTimeScan ! i), current (mixedTimeScan ! i))) [0..<2]
                 @ map (\<lambda>i. (potential (mixedTimeScan ! i), current (mixedTimeScan ! i))) [5 - 2..<5]
                 = [(0, 0), (1/10, 1), (3/10, 1), (4/10, 0)]"
    by (simp add: mixedTimeScan_def upt_rec nth_Cons')
  show ?thesis
    unfolding linearBaseline_def Let_def len ac anchors ls
    by (simp add: mixedTimeScan_def mixedTimeBaseline_def)
qed

lemma mixed_peak:
  "buildPeakResult mixedTimeScan mixedTimeBaseline mixedTimeCorrected True \<lparr>index = 2, magnitude = 5/2, prominence = 3\<rparr>
     = \<lparr>peakIndex = 2, peakPotential = 1/5, peakCurrent = 3, rawCurrent = 3, height = 5/2,
        peakArea = 76/15, chargeUnit = Coulombs, startIndex = 0, endIndex = 4,
        startPotential = 0, endPotential = 2/5, peakType = Oxidation\<rparr>"
proof -
  have ht: "hasTimeData mixedTimeScan" by (simp add: hasTimeData_def mixedTimeScan_def)
  have v: "current (mixedTimeScan ! 2) = 3" "potential (mixedTimeScan ! 0) = 0" "potential (mixedTimeScan ! 4) = 2/5"
    by (simp_all add: mixedTimeScan_def)
  show ?thesis
    unfolding buildPeakResult_def Let_def
    by (simp add: mixed_boundaries mixed_interp mixed_area ht v) (simp add: mixedTimeCorrected_def)
qed

lemma mixedTimeCorrected_length: "length mixedTimeCorrected = 5" by (simp add: mixedTimeCorrected_def)

lemma mixed_find:
  "findCVPeaks mixedTimeScan mixedTimeBaseline mixedTimeCorrected Forward (5/100)
     = [\<lparr>peakIndex = 2, peakPotential = 1/5, peakCurrent = 3, rawCurrent = 3, height = 5/2,
        peakArea = 76/15, chargeUnit = Coulombs, startIndex = 0, endIndex = 4,
        startPotential = 0, endPotential = 2/5, peakType = Oxidation\<rparr>]"
proof -
  have ms: "real_of_int (max 5 \<lfloor>real (5::nat) * 0.02\<rfloor>) = 5" by simp
  have mp: "mergePeaks [\<lparr>index = 2, magnitude = 5/2, prominence = 3\<rparr>] 5
              = [\<lparr>index = 2, magnitude = 5/2, prominence = 3\<rparr>]"
    by (simp add: mergePeaks_def)
  show ?thesis
    unfolding findCVPeaks_def Let_def
    by (simp add: mixed_candidates mixed_prominence ms mp mixed_peak mixedTimeCorrected_length)
qed

text \<open>
  Claim C1 says that the integration points of a peak have the sample's time as abscissa
  if every sample has a time value and its potential otherwise, and that the charge unit
  is \<open>'C'\<close> exactly when time is available. On \<open>mixedTimeScan\<close> the apex sample has no
  time value, so not every sample has one; yet \<open>findCVPeaks\<close> tests the first sample
  only: the peak is reported in \<open>Coulombs\<close>, and the abscissae of its integration points
  are the times 0, 1, 3, 4 with the potential 1/5 of the apex sample between them.
\<close>

theorem charge_axis_mixes_time_and_potential:
  "map time mixedTimeScan = [Some 0, Some 1, None, Some 3, Some 4]
   \<and> peaks (analyzeCVScan mixedTimeScan linearConfig Forward)
       = [\<lparr>peakIndex = 2, peakPotential = 1/5, peakCurrent = 3, rawCurrent = 3, height = 5/2,
           peakArea = 76/15, chargeUnit = Coulombs, startIndex = 0, endIndex = 4,
           startPotential = 0, endPotential = 2/5, peakType = Oxidation\<rparr>]
   \<and> map x (buildIntegrationPoints mixedTimeScan (baseline (analyzeCVScan mixedTimeScan linearConfig Forward)) 0 4 True)
       = [0, 1, 1/5, 3, 4]"
proof -
  have ne: "mixedTimeScan \<noteq> []" by (simp add: mixedTimeScan_def)
  have sm: "smoothed (analyzeCVScan mixedTimeScan linearConfig Forward) = mixedTimeScan"
    by (simp add: analyzeCVScan_smoothed[OF ne] linearConfig_def)
  have cb: "computeBaseline mixedTimeScan Forward linearConfig = Inr mixedTimeBaseline"
    by (simp add: computeBaseline_def linearConfig_def mixed_linear)
  have bl: "baseline (analyzeCVScan mixedTimeScan linearConfig Forward) = mixedTimeBaseline"
    by (simp add: analyzeCVScan_baseline[OF ne] sm cb)
  have co: "map (\<lambda>i. current (mixedTimeScan ! i) - baselineCurrentAt mixedTimeBaseline i) [0..<length mixedTimeScan]
              = mixedTimeCorrected"
    by (simp add: mixedTimeCorrected_def mixedTimeScan_def mixedTimeBaseline_def baselineCurrentAt_def upt_rec nth_Cons')
  have th: "peakProminenceThreshold linearConfig = 5/100" by (simp add: linearConfig_def)
  have pk: "peaks (analyzeCVScan mixedTimeScan linearConfig Forward)
              = findCVPeaks mixedTimeScan mixedTimeBaseline mixedTimeCorrected Forward (5/100)"
    unfolding analyzeCVScan_peaks[OF ne] sm bl co th ..
  have t: "map time mixedTimeScan = [Some 0, Some 1, None, Some 3, Some 4]" by (simp add: mixedTimeScan_def)
  show ?thesis unfolding pk bl mixed_find mixed_points using t by simp
qed


end
